theory Spec2Isabelle
  imports Complex_Main "HOL-Library.Sublist"
begin

section \<open>Data model\<close>

text \<open>
  \<^verbatim>\<open>PatientRecord\<close> of \<^verbatim>\<open>types.ts\<close>: every field is a string except \<^verbatim>\<open>no\<close>.
  The field \<^verbatim>\<open>id\<close> is written \<open>id'\<close> because \<open>id\<close> is the identity function of HOL.
  A JavaScript string is modelled as a \<open>string\<close> (a list of characters); the characters
  of the model are the 8-bit characters of HOL, compared by their code.
\<close>

record PatientRecord =
  id' :: string
  no :: int
  tanggal :: string
  noKib :: string
  namaPasien :: string
  prioritas :: string
  jamDatang :: string
  jamDokter :: string
  dpjp :: string
  dokterSpesialis :: string
  jamKonsul :: string
  jamRespon :: string
  jamResponSpesialis :: string
  ket :: string
  ruangan :: string
  masalah :: string

section \<open>String primitives of the host language\<close>

text \<open>A string used as a condition is true exactly when it is not empty.\<close>

definition truthy :: "string \<Rightarrow> bool" where
  "truthy s = (s \<noteq> [])"

text \<open>
  \<^verbatim>\<open>a < b\<close> on two strings: the first position where they differ decides, by character
  code; a proper prefix is smaller.
\<close>

fun strLess :: "string \<Rightarrow> string \<Rightarrow> bool" where
  "strLess [] [] = False"
| "strLess [] (y # ys) = True"
| "strLess (x # xs) [] = False"
| "strLess (x # xs) (y # ys) =
     (if x = y then strLess xs ys else (of_char x :: nat) < of_char y)"

text \<open>\<^verbatim>\<open>a > b\<close> is \<^verbatim>\<open>b < a\<close>, and \<^verbatim>\<open>a >= b\<close>, \<^verbatim>\<open>a <= b\<close> on strings are the negations.\<close>

definition strGreater :: "string \<Rightarrow> string \<Rightarrow> bool" where
  "strGreater a b = strLess b a"

definition strGreaterEq :: "string \<Rightarrow> string \<Rightarrow> bool" where
  "strGreaterEq a b = (\<not> strLess a b)"

definition strLessEq :: "string \<Rightarrow> string \<Rightarrow> bool" where
  "strLessEq a b = (\<not> strLess b a)"

text \<open>
  \<^verbatim>\<open>s.toLowerCase()\<close>, on the characters of the model: the letters A to Z and the
  capital letters of Latin-1 (the codes 192 to 222, but for the multiplication sign 215)
  go to the letter 32 codes further; every other character of the model is its own
  lowercase form.
\<close>

definition lowerChar :: "char \<Rightarrow> char" where
  "lowerChar c =
     (let n = (of_char c :: nat)
      in if (65 \<le> n \<and> n \<le> 90) \<or> (192 \<le> n \<and> n \<le> 222 \<and> n \<noteq> 215)
         then char_of (n + 32) else c)"

definition toLowerCase :: "string \<Rightarrow> string" where
  "toLowerCase s = map lowerChar s"

text \<open>\<^verbatim>\<open>s.includes(t)\<close>: \<open>t\<close> occurs in \<open>s\<close> at some position.\<close>

fun startsWith :: "string \<Rightarrow> string \<Rightarrow> bool" where
  "startsWith s [] = True"
| "startsWith [] (c # t) = False"
| "startsWith (x # s) (c # t) = (x = c \<and> startsWith s t)"

fun includesStr :: "string \<Rightarrow> string \<Rightarrow> bool" where
  "includesStr [] t = (t = [])"
| "includesStr (x # s) t = (startsWith (x # s) t \<or> includesStr s t)"

section \<open>Filter engine\<close>

subsection \<open>Data-table view (\<^verbatim>\<open>DataTable.tsx\<close>, \<^verbatim>\<open>filteredData\<close>)\<close>

definition matchesSearch_table :: "string \<Rightarrow> PatientRecord \<Rightarrow> bool" where
  "matchesSearch_table searchTerm item =
     (includesStr (toLowerCase (namaPasien item)) (toLowerCase searchTerm) \<or>
      includesStr (toLowerCase (noKib item)) (toLowerCase searchTerm) \<or>
      includesStr (toLowerCase (dpjp item)) (toLowerCase searchTerm))"

text \<open>
  The date test starts from \<^verbatim>\<open>matchesDate = true\<close> and clears the flag in two
  successive conditionals, inside the guard \<^verbatim>\<open>startDate || endDate\<close>.
\<close>

definition matchesDate_table :: "string \<Rightarrow> string \<Rightarrow> PatientRecord \<Rightarrow> bool" where
  "matchesDate_table startDate endDate item =
     (let matchesDate0 = True in
      if truthy startDate \<or> truthy endDate then
        (let itemDate = tanggal item;
             matchesDate1 =
               (if truthy startDate \<and> strLess itemDate startDate then False else matchesDate0);
             matchesDate2 =
               (if truthy endDate \<and> strGreater itemDate endDate then False else matchesDate1)
         in matchesDate2)
      else matchesDate0)"

definition filteredData ::
  "PatientRecord list \<Rightarrow> string \<Rightarrow> string \<Rightarrow> string \<Rightarrow> PatientRecord list" where
  "filteredData data searchTerm startDate endDate =
     filter (\<lambda>item. matchesSearch_table searchTerm item \<and>
                    matchesDate_table startDate endDate item) data"

subsection \<open>Reports view (\<^verbatim>\<open>ReportsPanel\<close>, \<^verbatim>\<open>filteredPatients\<close>)\<close>

definition matchesStartDate :: "string \<Rightarrow> PatientRecord \<Rightarrow> bool" where
  "matchesStartDate startDate p =
     (if truthy startDate then strGreaterEq (tanggal p) startDate else True)"

definition matchesEndDate :: "string \<Rightarrow> PatientRecord \<Rightarrow> bool" where
  "matchesEndDate endDate p =
     (if truthy endDate then strLessEq (tanggal p) endDate else True)"

definition matchesSearch_reports :: "string \<Rightarrow> PatientRecord \<Rightarrow> bool" where
  "matchesSearch_reports searchTerm p =
     (if truthy searchTerm
      then includesStr (toLowerCase (namaPasien p)) (toLowerCase searchTerm) \<or>
           includesStr (noKib p) searchTerm
      else True)"

definition filteredPatients ::
  "PatientRecord list \<Rightarrow> string \<Rightarrow> string \<Rightarrow> string \<Rightarrow> PatientRecord list" where
  "filteredPatients patients searchTerm startDate endDate =
     filter (\<lambda>p. matchesStartDate startDate p \<and> matchesEndDate endDate p \<and>
                 matchesSearch_reports searchTerm p) patients"

subsection \<open>The contract of the filter engine, in the words of the specification\<close>

text \<open>
  A date bound is optional; in the views an absent bound is the empty string of the
  input field. A record is within the range when its date is not lexicographically
  below the start bound and not above the end bound.
\<close>

definition boundOf :: "string \<Rightarrow> string option" where
  "boundOf s = (if s = [] then None else Some s)"

definition withinRange :: "string option \<Rightarrow> string option \<Rightarrow> PatientRecord \<Rightarrow> bool" where
  "withinRange lo hi r =
     ((case lo of None \<Rightarrow> True | Some a \<Rightarrow> \<not> strLess (tanggal r) a) \<and>
      (case hi of None \<Rightarrow> True | Some b \<Rightarrow> \<not> strLess b (tanggal r)))"

text \<open>
  Case-insensitive substring match of a query against a list of fields: the lowercased
  query occurs in the lowercased value of at least one of them.
\<close>

definition matchesAnyField ::
  "(PatientRecord \<Rightarrow> string) list \<Rightarrow> string \<Rightarrow> PatientRecord \<Rightarrow> bool" where
  "matchesAnyField fs query r =
     (\<exists>f \<in> set fs. sublist (toLowerCase query) (toLowerCase (f r)))"

text \<open>
  A record satisfies all the supplied criteria when it matches the query on the fields of
  the view and lies within the date range.
\<close>

definition satisfiesAll ::
  "(PatientRecord \<Rightarrow> string) list \<Rightarrow> string \<Rightarrow> string option \<Rightarrow> string option \<Rightarrow>
     PatientRecord \<Rightarrow> bool" where
  "satisfiesAll fs query lo hi r = (matchesAnyField fs query r \<and> withinRange lo hi r)"

section \<open>Values, objects and arrays of the host language\<close>

text \<open>
  The values that the statistics code can hold in a counter: \<open>Undefined\<close> (a property
  that is absent), \<open>NaN\<close>, a count, a string, a built-in function inherited from the
  prototype of every plain object (named by the property that holds it; the function held
  by \<^verbatim>\<open>constructor\<close> is called \<^verbatim>\<open>Object\<close>), and that prototype object
  itself (what the accessor \<^verbatim>\<open>__proto__\<close> returns). Counts are natural numbers: a count
  stays below the length of the collection, where numbers are exact.
\<close>

datatype jsval = Undefined | NaN | Num nat | Str string | NativeFn string | ProtoObj

text \<open>Truthiness, and \<^verbatim>\<open>v || 0\<close>.\<close>

fun truthyVal :: "jsval \<Rightarrow> bool" where
  "truthyVal Undefined = False"
| "truthyVal NaN = False"
| "truthyVal (Num n) = (n \<noteq> 0)"
| "truthyVal (Str s) = (s \<noteq> [])"
| "truthyVal (NativeFn f) = True"
| "truthyVal ProtoObj = True"

definition orZero :: "jsval \<Rightarrow> jsval" where
  "orZero v = (if truthyVal v then v else Num 0)"

text \<open>
  \<^verbatim>\<open>v + 1\<close>: addition on numbers; a string, or an object converted to its string form,
  is concatenated with \<^verbatim>\<open>"1"\<close>.
\<close>

definition functionName :: "string \<Rightarrow> string" where
  "functionName k = (if k = ''constructor'' then ''Object'' else k)"

fun plusOne :: "jsval \<Rightarrow> jsval" where
  "plusOne Undefined = NaN"
| "plusOne NaN = NaN"
| "plusOne (Num n) = Num (n + 1)"
| "plusOne (Str s) = Str (s @ ''1'')"
| "plusOne (NativeFn k) = Str (''function '' @ functionName k @ ''() { [native code] }'' @ ''1'')"
| "plusOne ProtoObj = Str (''[object Object]'' @ ''1'')"

text \<open>
  \<^verbatim>\<open>v++\<close> on an array element converts to a number first: an absent element gives
  \<open>NaN\<close>. The bins only ever hold numbers.
\<close>

fun increment :: "jsval \<Rightarrow> jsval" where
  "increment (Num n) = Num (n + 1)"
| "increment v = NaN"

text \<open>Decimal digits and the decimal form of a natural number (template strings).\<close>

definition digitChar :: "nat \<Rightarrow> char" where
  "digitChar d = ''0123456789'' ! (d mod 10)"

fun showNat :: "nat \<Rightarrow> string" where
  "showNat n = (if n < 10 then [digitChar n] else showNat (n div 10) @ [digitChar (n mod 10)])"

declare showNat.simps [simp del]

definition digitVal :: "nat \<Rightarrow> char \<Rightarrow> nat option" where
  "digitVal radix c =
     (case map_of (zip ''0123456789abcdefABCDEF''
                     [0, 1, 2, 3, 4, 5, 6, 7, 8, 9, 10, 11, 12, 13, 14, 15, 10, 11, 12, 13, 14, 15]) c of
        Some d \<Rightarrow> (if d < radix then Some d else None)
      | None \<Rightarrow> None)"

text \<open>
  A plain object \<^verbatim>\<open>{}\<close>: its own properties in the order of their creation. Reading
  a property that is not its own goes to the prototype of plain objects, which has eleven
  built-in functions and the accessor \<^verbatim>\<open>__proto__\<close>.
\<close>

type_synonym jsobject = "(string \<times> jsval) list"

definition protoFunctions :: "string list" where
  "protoFunctions =
     [''constructor'', ''__defineGetter__'', ''__defineSetter__'', ''hasOwnProperty'',
      ''__lookupGetter__'', ''__lookupSetter__'', ''isPrototypeOf'',
      ''propertyIsEnumerable'', ''toString'', ''valueOf'', ''toLocaleString'']"

definition getProp :: "jsobject \<Rightarrow> string \<Rightarrow> jsval" where
  "getProp obj k =
     (case map_of obj k of
        Some v \<Rightarrow> v
      | None \<Rightarrow>
          if k = ''__proto__'' then ProtoObj
          else if k \<in> set protoFunctions then NativeFn k
          else Undefined)"

text \<open>
  Assignment \<^verbatim>\<open>obj[k] = v\<close> of a number or a string: an own property keeps its place,
  a new one is created last; assigning a value that is not an object to \<^verbatim>\<open>__proto__\<close>
  runs the accessor of the prototype, which ignores it.
\<close>

fun updateOwn :: "jsobject \<Rightarrow> string \<Rightarrow> jsval \<Rightarrow> jsobject" where
  "updateOwn [] k v = [(k, v)]"
| "updateOwn ((k', v') # obj) k v =
     (if k' = k then (k, v) # obj else (k', v') # updateOwn obj k v)"

definition setProp :: "jsobject \<Rightarrow> string \<Rightarrow> jsval \<Rightarrow> jsobject" where
  "setProp obj k v =
     (if k = ''__proto__'' then obj else updateOwn obj k v)"

text \<open>
  \<^verbatim>\<open>Object.keys(obj)\<close>: the keys that are array indices (canonical decimal numerals below
  \<open>2^32 - 1\<close>) in ascending numeric order, then the other keys in creation order.
\<close>

fun digitsValue :: "nat \<Rightarrow> nat \<Rightarrow> string \<Rightarrow> nat option" where
  "digitsValue radix acc [] = Some acc"
| "digitsValue radix acc (c # cs) =
     (case digitVal radix c of
        None \<Rightarrow> None
      | Some d \<Rightarrow> digitsValue radix (acc * radix + d) cs)"

definition arrayIndex :: "string \<Rightarrow> nat option" where
  "arrayIndex k =
     (if k = [] \<or> (hd k = CHR ''0'' \<and> k \<noteq> ''0'') then None
      else case digitsValue 10 0 k of
             None \<Rightarrow> None
           | Some n \<Rightarrow> if n < 2 ^ 32 - 1 then Some n else None)"

definition indexOrder :: "string \<Rightarrow> nat" where
  "indexOrder k = (case arrayIndex k of Some n \<Rightarrow> n | None \<Rightarrow> 0)"

definition Object_keys :: "jsobject \<Rightarrow> string list" where
  "Object_keys obj =
     sort_key indexOrder (filter (\<lambda>k. arrayIndex k \<noteq> None) (map fst obj)) @
     filter (\<lambda>k. arrayIndex k = None) (map fst obj)"

text \<open>
  An array: the list of its elements, \<open>None\<close> for a hole. Writing beyond the end
  extends the array with holes. \<^verbatim>\<open>map\<close> keeps the holes and \<^verbatim>\<open>filter\<close> skips them.
\<close>

type_synonym jsarray = "jsval option list"

definition readElem :: "jsarray \<Rightarrow> nat \<Rightarrow> jsval" where
  "readElem arr i =
     (if i < length arr then (case arr ! i of Some v \<Rightarrow> v | None \<Rightarrow> Undefined) else Undefined)"

definition writeElem :: "jsarray \<Rightarrow> nat \<Rightarrow> jsval \<Rightarrow> jsarray" where
  "writeElem arr i v =
     (if i < length arr then arr[i := Some v]
      else arr @ replicate (i - length arr) None @ [Some v])"

text \<open>
  \<^verbatim>\<open>parseInt(s)\<close> with no radix: leading white space is dropped, then an optional
  sign, then an optional \<^verbatim>\<open>0x\<close> prefix that selects radix 16; the longest run of digits
  is read, and \<open>None\<close> (\<^verbatim>\<open>NaN\<close>) is the result when it is empty. The result is the
  integer read; the host rounds integers of \<open>2^53\<close> and beyond to a double, which cannot
  bring them back into the range of array indices.
\<close>

definition isWhiteSpace :: "char \<Rightarrow> bool" where
  "isWhiteSpace c = ((of_char c :: nat) \<in> {9, 10, 11, 12, 13, 32, 160})"

fun digitsPrefix :: "nat \<Rightarrow> string \<Rightarrow> nat list" where
  "digitsPrefix radix [] = []"
| "digitsPrefix radix (c # cs) =
     (case digitVal radix c of
        None \<Rightarrow> []
      | Some d \<Rightarrow> d # digitsPrefix radix cs)"

definition parseInt :: "string \<Rightarrow> int option" where
  "parseInt inputString =
     (let s0 = dropWhile isWhiteSpace inputString;
          sign = (if s0 \<noteq> [] \<and> hd s0 = CHR ''-'' then - 1 else (1::int));
          s1 = (if s0 \<noteq> [] \<and> (hd s0 = CHR ''+'' \<or> hd s0 = CHR ''-'') then tl s0 else s0);
          hex = (take 2 s1 = ''0x'' \<or> take 2 s1 = ''0X'');
          radix = (if hex then 16 else 10);
          s2 = (if hex then drop 2 s1 else s1);
          ds = digitsPrefix radix s2
      in if ds = [] then None
         else Some (sign * int (foldl (\<lambda>acc d. acc * radix + d) 0 ds)))"

text \<open>\<^verbatim>\<open>s.split(':')[0]\<close>: the part of \<open>s\<close> before its first colon.\<close>

definition splitFirst :: "string \<Rightarrow> string" where
  "splitFirst s = takeWhile (\<lambda>c. c \<noteq> CHR '':'') s"

section \<open>Derived statistics (\<^verbatim>\<open>DashboardPanel\<close> and \<^verbatim>\<open>ReportsPanel\<close>)\<close>

text \<open>
  The two panels compute the same statistics with the same code, the dashboard over all
  patients and the reports view over \<open>filteredPatients\<close>. A chart point
  \<^verbatim>\<open>{name, value}\<close> is a pair.
\<close>

definition priorityData :: "PatientRecord list \<Rightarrow> (string \<times> nat) list" where
  "priorityData patients =
     map (\<lambda>p. (p, length (filter (\<lambda>pt. prioritas pt = p) patients)))
       [''P1'', ''P2'', ''P3'', ''P4'', ''P5'']"

definition countStatus :: "jsobject \<Rightarrow> PatientRecord \<Rightarrow> jsobject" where
  "countStatus statusCounts p =
     setProp statusCounts (ket p) (plusOne (orZero (getProp statusCounts (ket p))))"

definition statusCounts :: "PatientRecord list \<Rightarrow> jsobject" where
  "statusCounts patients = foldl countStatus [] patients"

definition statusData :: "PatientRecord list \<Rightarrow> (string \<times> jsval) list" where
  "statusData patients =
     map (\<lambda>key. (key, getProp (statusCounts patients) key)) (Object_keys (statusCounts patients))"

text \<open>
  The hour histogram. A number that is not an array index (negative, or \<open>2^32 - 1\<close> and
  beyond) names an ordinary property of the array object, which is no element of it:
  the elements are unchanged.
\<close>

definition countArrival :: "jsarray \<Rightarrow> PatientRecord \<Rightarrow> jsarray" where
  "countArrival timeBins p =
     (if truthy (jamDatang p) \<and> jamDatang p \<noteq> ''-'' then
        (case parseInt (splitFirst (jamDatang p)) of
           None \<Rightarrow> timeBins
         | Some hour \<Rightarrow>
             if 0 \<le> hour \<and> hour < 2 ^ 32 - 1
             then writeElem timeBins (nat hour) (increment (readElem timeBins (nat hour)))
             else timeBins)
      else timeBins)"

definition timeBins :: "PatientRecord list \<Rightarrow> jsarray" where
  "timeBins patients = foldl countArrival (replicate 24 (Some (Num 0))) patients"

text \<open>A point of the trend chart, \<^verbatim>\<open>{name, pasien}\<close>, is a pair.\<close>

definition arrivalTrendData :: "PatientRecord list \<Rightarrow> (string \<times> jsval) list" where
  "arrivalTrendData patients =
     (let mapped = map (\<lambda>(hour, cell). map_option (\<lambda>count. (showNat hour @ '':00'', count)) cell)
                     (enumerate 0 (timeBins patients))
      in List.map_filter (\<lambda>(i, cell). if 6 \<le> i \<and> i \<le> 22 then cell else None)
           (enumerate 0 mapped))"

section \<open>Percentage on the dashboard\<close>

text \<open>
  Numbers of the host language are binary64 doubles. A finite double is modelled by the
  rational it denotes; \<open>fl\<close> rounds a non-negative rational to the nearest double (53
  significant bits, ties to even). The exponent range is not modelled: the quotient of
  two array lengths and its product with 100 are far from overflow and underflow.
\<close>

datatype jsnum = NotANumber | Infinity | Finite rat

text \<open>The number of binary digits of a positive integer.\<close>

function bitlen :: "int \<Rightarrow> nat" where
  "bitlen n = (if n \<le> 0 then 0 else Suc (bitlen (n div 2)))"
  by pat_completeness auto
termination
  by (relation "measure nat") auto

declare bitlen.simps [simp del]

definition pow2 :: "int \<Rightarrow> rat" where
  "pow2 k = (if 0 \<le> k then 2 ^ nat k else 1 / 2 ^ nat (- k))"

text \<open>The \<open>e\<close> with \<open>2^e \<le> x < 2^(e+1)\<close>, for a positive \<open>x\<close>.\<close>

definition binade :: "rat \<Rightarrow> int" where
  "binade x =
     (let (p, q) = quotient_of x;
          k = int (bitlen p) - int (bitlen q)
      in if pow2 k \<le> x then k else k - 1)"

definition roundHalfEven :: "rat \<Rightarrow> int" where
  "roundHalfEven x =
     (let f = \<lfloor>x\<rfloor>; d = x - of_int f
      in if d < 1 / 2 then f else if 1 / 2 < d then f + 1 else if even f then f else f + 1)"

definition fl :: "rat \<Rightarrow> rat" where
  "fl x =
     (if x \<le> 0 then 0
      else let ulp = pow2 (binade x - 52) in of_int (roundHalfEven (x / ulp)) * ulp)"

text \<open>Division and multiplication of the non-negative numbers that occur here.\<close>

definition jsDivide :: "nat \<Rightarrow> nat \<Rightarrow> jsnum" where
  "jsDivide a b =
     (if b = 0 then (if a = 0 then NotANumber else Infinity)
      else Finite (fl (of_nat a / of_nat b)))"

fun jsTimes :: "jsnum \<Rightarrow> nat \<Rightarrow> jsnum" where
  "jsTimes NotANumber n = NotANumber"
| "jsTimes Infinity n = (if n = 0 then NotANumber else Infinity)"
| "jsTimes (Finite x) n = Finite (fl (x * of_nat n))"

text \<open>\<^verbatim>\<open>x || 0\<close>: \<open>NaN\<close> and zero are false.\<close>

fun orZeroNum :: "jsnum \<Rightarrow> jsnum" where
  "orZeroNum NotANumber = Finite 0"
| "orZeroNum Infinity = Infinity"
| "orZeroNum (Finite x) = (if x = 0 then Finite 0 else Finite x)"

text \<open>\<^verbatim>\<open>Math.round\<close>: the nearest integer, a tie going up.\<close>

fun Math_round :: "jsnum \<Rightarrow> jsnum" where
  "Math_round NotANumber = NotANumber"
| "Math_round Infinity = Infinity"
| "Math_round (Finite x) = Finite (of_int \<lfloor>x + 1 / 2\<rfloor>)"

text \<open>
  The footer of the inpatient card of the dashboard:
  \<^verbatim>\<open>Math.round((rawatInap/totalPatients)*100 || 0)\<close>.
\<close>

definition totalPatients :: "PatientRecord list \<Rightarrow> nat" where
  "totalPatients patients = length patients"

definition rawatInap :: "PatientRecord list \<Rightarrow> nat" where
  "rawatInap patients = length (filter (\<lambda>p. ket p = ''Rawat Inap'') patients)"

definition inpatientPercent :: "PatientRecord list \<Rightarrow> jsnum" where
  "inpatientPercent patients =
     Math_round (orZeroNum (jsTimes (jsDivide (rawatInap patients) (totalPatients patients)) 100))"

section \<open>CRUD orchestration (\<^verbatim>\<open>DataTable.tsx\<close>)\<close>

text \<open>
  The record store client (\<^verbatim>\<open>services/googleSheets\<close>) is an external collaborator: its
  three operations are parameters, each a function of the state of the remote store (of
  any type \<open>'r\<close>) that returns the settled promise and the new state of the store.
\<close>

datatype 'a awaited = Rejected | Resolved 'a

record 'r store =
  addPatientToDB :: "PatientRecord \<Rightarrow> 'r \<Rightarrow> string awaited \<times> 'r"
  updatePatientInDB :: "PatientRecord \<Rightarrow> 'r \<Rightarrow> unit awaited \<times> 'r"
  deletePatientFromDB :: "string \<Rightarrow> 'r \<Rightarrow> unit awaited \<times> 'r"

text \<open>
  What the handlers do to the world, in order: calls of the store, the callbacks
  \<^verbatim>\<open>onUpdate\<close> and \<^verbatim>\<open>onNotification\<close> of the application, \<^verbatim>\<open>alert\<close> and
  \<^verbatim>\<open>console.error\<close>.
\<close>

datatype event =
    CallAdd PatientRecord
  | CallUpdate PatientRecord
  | CallDelete string
  | OnUpdate "PatientRecord list"
  | OnNotification string
  | Alert string
  | ConsoleError

text \<open>
  The state around the data table: the local collection \<^verbatim>\<open>data\<close> (the application's
  \<^verbatim>\<open>patientData\<close>, which \<^verbatim>\<open>onUpdate\<close> replaces), the selection, the form, the remote
  store and the trace of events. The optional callback \<^verbatim>\<open>onNotification\<close> is present, as
  the application passes it.
\<close>

record 'r table =
  data :: "PatientRecord list"
  selectedIds :: "string set"
  isFormOpen :: bool
  editingItem :: "PatientRecord option"
  remote :: 'r
  trace :: "event list"

definition emit :: "event \<Rightarrow> 'r table \<Rightarrow> 'r table" where
  "emit e st = st\<lparr>trace := trace st @ [e]\<rparr>"

definition onUpdate :: "PatientRecord list \<Rightarrow> 'r table \<Rightarrow> 'r table" where
  "onUpdate newData st = emit (OnUpdate newData) (st\<lparr>data := newData\<rparr>)"

definition onNotification :: "string \<Rightarrow> 'r table \<Rightarrow> 'r table" where
  "onNotification msg st = emit (OnNotification msg) st"

definition unselect :: "string \<Rightarrow> 'r table \<Rightarrow> 'r table" where
  "unselect i st =
     (if i \<in> selectedIds st then st\<lparr>selectedIds := selectedIds st - {i}\<rparr> else st)"

definition closeForm :: "'r table \<Rightarrow> 'r table" where
  "closeForm st = st\<lparr>isFormOpen := False, editingItem := None\<rparr>"

text \<open>\<^verbatim>\<open>handleDelete\<close>; \<open>confirmed\<close> is the answer to the confirmation dialog.\<close>

definition handleDelete :: "'r store \<Rightarrow> bool \<Rightarrow> string \<Rightarrow> 'r table \<Rightarrow> 'r table" where
  "handleDelete db confirmed i st =
     (if confirmed then
        (case deletePatientFromDB db i (remote st) of
           (Resolved u, r) \<Rightarrow>
             (let st1 = emit (CallDelete i) (st\<lparr>remote := r\<rparr>);
                  newData = filter (\<lambda>item. id' item \<noteq> i) (data st);
                  st2 = onUpdate newData st1;
                  st3 = unselect i st2
              in onNotification ''Data pasien berhasil dihapus.'' st3)
         | (Rejected, r) \<Rightarrow>
             (let st1 = emit (CallDelete i) (st\<lparr>remote := r\<rparr>);
                  st2 = emit ConsoleError st1
              in onNotification ''Gagal menghapus data.'' st2))
      else st)"

definition handleDeleteFromForm :: "'r store \<Rightarrow> string \<Rightarrow> 'r table \<Rightarrow> 'r table" where
  "handleDeleteFromForm db i st =
     (case deletePatientFromDB db i (remote st) of
        (Resolved u, r) \<Rightarrow>
          (let st1 = emit (CallDelete i) (st\<lparr>remote := r\<rparr>);
               newData = filter (\<lambda>item. id' item \<noteq> i) (data st);
               st2 = onUpdate newData st1;
               st3 = unselect i st2;
               st4 = closeForm st3
           in onNotification ''Data pasien berhasil dihapus.'' st4)
      | (Rejected, r) \<Rightarrow>
          (let st1 = emit (CallDelete i) (st\<lparr>remote := r\<rparr>);
               st2 = emit ConsoleError st1
           in onNotification ''Gagal menghapus data.'' st2))"

text \<open>
  \<^verbatim>\<open>handleSaveForm\<close>: edit mode when \<^verbatim>\<open>editingItem\<close> is set, add mode otherwise. The
  closure reads the \<^verbatim>\<open>data\<close> of the moment the handler started.
\<close>

definition handleSaveForm :: "'r store \<Rightarrow> PatientRecord \<Rightarrow> 'r table \<Rightarrow> 'r table" where
  "handleSaveForm db record st =
     (if editingItem st \<noteq> None then
        (case updatePatientInDB db record (remote st) of
           (Resolved u, r) \<Rightarrow>
             (let st1 = emit (CallUpdate record) (st\<lparr>remote := r\<rparr>);
                  st2 = onUpdate (map (\<lambda>item. if id' item = id' record then record else item) (data st)) st1;
                  st3 = onNotification ''Perubahan data berhasil disimpan ke Sheet.'' st2
              in closeForm st3)
         | (Rejected, r) \<Rightarrow>
             (let st1 = emit (CallUpdate record) (st\<lparr>remote := r\<rparr>);
                  st2 = emit ConsoleError st1
              in onNotification ''Gagal menyimpan data ke database.'' st2))
      else
        (case addPatientToDB db record (remote st) of
           (Resolved newId, r) \<Rightarrow>
             (let st1 = emit (CallAdd record) (st\<lparr>remote := r\<rparr>);
                  st2 = (if truthy newId
                         then (let newRecord = record\<lparr>id' := newId\<rparr>;
                                   st1a = onUpdate (newRecord # data st) st1
                               in onNotification ''Data pasien baru berhasil ditambahkan.'' st1a)
                         else st1)
              in closeForm st2)
         | (Rejected, r) \<Rightarrow>
             (let st1 = emit (CallAdd record) (st\<lparr>remote := r\<rparr>);
                  st2 = emit ConsoleError st1
              in onNotification ''Gagal menyimpan data ke database.'' st2)))"

text \<open>
  \<^verbatim>\<open>handleFileImport\<close>, from the moment the file has been read. The text of the file is
  not JSON, or JSON that is not an array, or an array of records. The loop submits the
  new items one at a time; a rejected call leaves the loop and the handler's
  \<^verbatim>\<open>try\<close> block.
\<close>

datatype parsed = SyntaxError | NotAnArray | Items "PatientRecord list"

fun addItems ::
  "'r store \<Rightarrow> PatientRecord list \<Rightarrow> PatientRecord list \<Rightarrow> 'r table \<Rightarrow>
     PatientRecord list awaited \<times> 'r table" where
  "addItems db [] addedItems st = (Resolved addedItems, st)"
| "addItems db (item # rest) addedItems st =
     (case addPatientToDB db item (remote st) of
        (Resolved newId, r) \<Rightarrow>
          addItems db rest
            (if truthy newId then addedItems @ [item\<lparr>id' := newId\<rparr>] else addedItems)
            (emit (CallAdd item) (st\<lparr>remote := r\<rparr>))
      | (Rejected, r) \<Rightarrow> (Rejected, emit (CallAdd item) (st\<lparr>remote := r\<rparr>)))"

definition handleFileImport :: "'r store \<Rightarrow> parsed \<Rightarrow> bool \<Rightarrow> 'r table \<Rightarrow> 'r table" where
  "handleFileImport db fileContent confirmed st =
     (case fileContent of
        SyntaxError \<Rightarrow> emit (Alert ''Gagal membaca file atau koneksi error.'') st
      | NotAnArray \<Rightarrow> st
      | Items importedData \<Rightarrow>
          if confirmed then
            (let existingRMs = set (map noKib (data st));
                 newItems = filter (\<lambda>d. noKib d \<notin> existingRMs) importedData
             in if length newItems = 0
                then onNotification ''Semua data sudah ada di database.'' st
                else (case addItems db newItems [] st of
                        (Resolved addedItems, st1) \<Rightarrow>
                          onNotification
                            (''Berhasil mengimpor '' @ showNat (length addedItems) @ '' data ke database.'')
                            (onUpdate (addedItems @ data st) st1)
                      | (Rejected, st1) \<Rightarrow>
                          emit (Alert ''Gagal membaca file atau koneksi error.'') st1))
          else st)"

text \<open>
  What a handler added to the trace, and the submitted items and the notifications among
  it.
\<close>

definition newEvents :: "'r table \<Rightarrow> 'r table \<Rightarrow> event list" where
  "newEvents st st' = drop (length (trace st)) (trace st')"

fun submitted :: "event list \<Rightarrow> PatientRecord list" where
  "submitted [] = []"
| "submitted (CallAdd item # es) = item # submitted es"
| "submitted (e # es) = submitted es"

fun notifications :: "event list \<Rightarrow> string list" where
  "notifications [] = []"
| "notifications (OnNotification msg # es) = msg # notifications es"
| "notifications (e # es) = notifications es"

text \<open>
  The answers of the store to a sequence of create calls, from a given state of the
  store: the description of an import run that the notification is compared with.
\<close>

fun createAnswers :: "'r store \<Rightarrow> 'r \<Rightarrow> PatientRecord list \<Rightarrow> string awaited list" where
  "createAnswers db r [] = []"
| "createAnswers db r (item # rest) =
     (case addPatientToDB db item r of (a, r') \<Rightarrow> a # createAnswers db r' rest)"

definition returnedIdentity :: "string awaited \<Rightarrow> bool" where
  "returnedIdentity a = (case a of Rejected \<Rightarrow> False | Resolved newId \<Rightarrow> newId \<noteq> [])"

section \<open>Sample records\<close>

text \<open>
  \<^verbatim>\<open>emptyRecord\<close> of \<^verbatim>\<open>PatientForm\<close>, with the date of the day as a parameter, and
  two patients built from it: the concrete inputs of the examples below.
\<close>

definition emptyRecord :: "string \<Rightarrow> PatientRecord" where
  "emptyRecord today =
     \<lparr>id' = '''', no = 0, tanggal = today, noKib = '''', namaPasien = '''', prioritas = ''P3'',
      jamDatang = '''', jamDokter = '''', dpjp = '''', dokterSpesialis = '''', jamKonsul = '''',
      jamRespon = '''', jamResponSpesialis = '''', ket = ''Rawat Jalan'', ruangan = ''-'',
      masalah = ''''\<rparr>"

definition budi :: PatientRecord where
  "budi = (emptyRecord ''2024-01-05'')
     \<lparr>id' := ''a1'', noKib := ''RM-123'', namaPasien := ''Budi'', prioritas := ''P1'',
      jamDatang := ''14:30'', dpjp := ''dr. Sari'', ket := ''Rawat Inap''\<rparr>"

definition siti :: PatientRecord where
  "siti = (emptyRecord ''2024-01-10'')
     \<lparr>id' := ''b2'', noKib := ''RM-200'', namaPasien := ''Siti'', prioritas := ''P2'',
      jamDatang := ''-'', dpjp := ''dr. Budiman''\<rparr>"

section \<open>Descriptions used in the statements\<close>

text \<open>
  Two descriptions used to state what the histogram holds: the hour that the guard and
  \<^verbatim>\<open>parseInt\<close> of \<open>countArrival\<close> read from a record, and the number of records of a
  collection whose hour is \<open>h\<close>.
\<close>

definition arrivalHour :: "PatientRecord \<Rightarrow> int option" where
  "arrivalHour p =
     (if truthy (jamDatang p) \<and> jamDatang p \<noteq> ''-''
      then parseInt (splitFirst (jamDatang p)) else None)"

definition hourCount :: "PatientRecord list \<Rightarrow> nat \<Rightarrow> nat" where
  "hourCount ps h = length (filter (\<lambda>p. arrivalHour p = Some (int h)) ps)"

definition binsOk :: "jsarray \<Rightarrow> (nat \<Rightarrow> nat) \<Rightarrow> bool" where
  "binsOk arr c = (24 \<le> length arr \<and> (\<forall>h<24. arr ! h = Some (Num (c h))))"

definition trendCell :: "nat \<times> jsval option \<Rightarrow> (string \<times> jsval) option" where
  "trendCell =
     (\<lambda>(i, cell). if 6 \<le> i \<and> i \<le> 22
                   then map_option (\<lambda>count. (showNat i @ '':00'', count)) cell else None)"

text \<open>
  Descriptions used to state the category counts: the number of records of a collection
  with a given disposition, the keys that collide with nothing in the prototype of plain
  objects, and the number that a chart value holds.
\<close>

definition ketCount :: "PatientRecord list \<Rightarrow> string \<Rightarrow> nat" where
  "ketCount ps k = length (filter (\<lambda>p. ket p = k) ps)"

definition ordinaryKey :: "string \<Rightarrow> bool" where
  "ordinaryKey k = (k \<noteq> ''__proto__'' \<and> k \<notin> set protoFunctions)"

fun valNum :: "jsval \<Rightarrow> nat" where
  "valNum (Num n) = n"
| "valNum v = 0"

definition statusInv :: "jsobject \<Rightarrow> PatientRecord list \<Rightarrow> bool" where
  "statusInv obj ps =
     (distinct (map fst obj) \<and>
      (\<forall>k. ordinaryKey k \<longrightarrow>
           map_of obj k = (if ketCount ps k = 0 then None else Some (Num (ketCount ps k)))) \<and>
      (\<forall>k v. map_of obj k = Some v \<longrightarrow> k \<in> ket ` set ps \<and> v \<noteq> Num 0))"

section \<open>Sample stores and table\<close>

text \<open>
  Two stores and a state of the table, the concrete inputs of the examples below: a store
  that is offline (every call is rejected), a store that accepts every call and numbers
  the records it creates, and a table that holds two patients and edits the first.
\<close>

definition offlineStore :: "nat store" where
  "offlineStore =
     \<lparr>addPatientToDB = (\<lambda>p n. (Rejected, n)),
      updatePatientInDB = (\<lambda>p n. (Rejected, n)),
      deletePatientFromDB = (\<lambda>i n. (Rejected, n))\<rparr>"

definition acceptingStore :: "nat store" where
  "acceptingStore =
     \<lparr>addPatientToDB = (\<lambda>p n. (Resolved (''id'' @ showNat n), Suc n)),
      updatePatientInDB = (\<lambda>p n. (Resolved (), n)),
      deletePatientFromDB = (\<lambda>i n. (Resolved (), n))\<rparr>"

definition sampleTable :: "nat table" where
  "sampleTable =
     \<lparr>data = [budi, siti], selectedIds = {}, isFormOpen = True, editingItem = Some budi,
      remote = 7, trace = []\<rparr>"

section \<open>Descriptions of an import run\<close>

text \<open>
  Descriptions used to state what an import run does, given the answers of the store: the
  number of create calls made (all of them when no call is rejected, those up to and
  including the first rejected call otherwise) and the records that the store confirmed
  with an identity, each with that identity.
\<close>

definition callsMade :: "string awaited list \<Rightarrow> nat" where
  "callsMade answers =
     (if Rejected \<in> set answers
      then Suc (length (takeWhile (\<lambda>a. a \<noteq> Rejected) answers))
      else length answers)"

fun confirmedItems :: "PatientRecord list \<Rightarrow> string awaited list \<Rightarrow> PatientRecord list" where
  "confirmedItems (item # items) (Resolved newId # answers) =
     (if newId \<noteq> [] then item\<lparr>id' := newId\<rparr> # confirmedItems items answers
      else confirmedItems items answers)"
| "confirmedItems items answers = []"

text \<open>
  The three records of the import example; the first repeats the record number of \<open>budi\<close>.
\<close>

definition wati :: PatientRecord where
  "wati = (emptyRecord ''2024-02-01'')\<lparr>noKib := ''RM-300'', namaPasien := ''Wati''\<rparr>"

definition agus :: PatientRecord where
  "agus = (emptyRecord ''2024-02-02'')\<lparr>noKib := ''RM-301'', namaPasien := ''Agus''\<rparr>"

definition budiAgain :: PatientRecord where
  "budiAgain = (emptyRecord ''2024-02-01'')\<lparr>noKib := ''RM-123'', namaPasien := ''Budi S.''\<rparr>"

definition importFile :: "PatientRecord list" where
  "importFile = [budiAgain, wati, agus]"

section \<open>Properties of the string primitives\<close>

lemma startsWith_iff_prefix: "startsWith s t \<longleftrightarrow> prefix t s"
  by (induction s t rule: startsWith.induct) auto

lemma includes_iff_sublist: "includesStr s t \<longleftrightarrow> sublist t s"
proof (induction s)
  case Nil
  then show ?case by simp
next
  case (Cons x s)
  then show ?case
    by (cases t) (simp_all add: startsWith_iff_prefix sublist_Cons_right)
qed

lemma strLess_irrefl: "\<not> strLess a a"
  by (induction a) auto

text \<open>\<open>strLess\<close> is the lexicographic order of the character codes.\<close>

lemma strLess_lexord:
  "strLess a b \<longleftrightarrow> (a, b) \<in> lexord {(x, y). (of_char x :: nat) < of_char y}"
  by (induction a b rule: strLess.induct) auto

lemma truthy_boundOf: "truthy s \<longleftrightarrow> boundOf s \<noteq> None"
  by (simp add: truthy_def boundOf_def)

lemma toLowerCase_examples:
  "toLowerCase ''RM-123 aZ'' = ''rm-123 az''"
  "toLowerCase [CHR ''J'', CHR ''O'', CHR ''S'', CHR 0xC9] = [CHR ''j'', CHR ''o'', CHR ''s'', CHR 0xE9]"
  "toLowerCase [CHR 0xC0, CHR 0xD7, CHR 0xDE, CHR 0xDF, CHR 0xFF] = [CHR 0xE0, CHR 0xD7, CHR 0xFE, CHR 0xDF, CHR 0xFF]"
  by code_simp+

section \<open>Properties of the filter engine\<close>

lemma matchesDate_table_withinRange:
  "matchesDate_table s e r \<longleftrightarrow> withinRange (boundOf s) (boundOf e) r"
  by (simp add: matchesDate_table_def withinRange_def boundOf_def truthy_def strGreater_def Let_def)

lemma matchesDates_reports_withinRange:
  "matchesStartDate s r \<and> matchesEndDate e r \<longleftrightarrow> withinRange (boundOf s) (boundOf e) r"
  by (simp add: matchesStartDate_def matchesEndDate_def withinRange_def boundOf_def truthy_def
      strGreaterEq_def strLessEq_def)

lemma includes_empty: "includesStr s []"
  by (cases s) simp_all

lemma matchesSearch_empty:
  "matchesSearch_table [] r" "matchesSearch_reports [] r"
  by (simp_all add: matchesSearch_table_def matchesSearch_reports_def toLowerCase_def
      includes_empty truthy_def)

lemma matchesSearch_table_spec:
  "matchesSearch_table q r \<longleftrightarrow> matchesAnyField [namaPasien, noKib, dpjp] q r"
  by (auto simp add: matchesSearch_table_def matchesAnyField_def includes_iff_sublist)

lemma sublist_map_lowerChar: "sublist t s \<Longrightarrow> sublist (map lowerChar t) (map lowerChar s)"
proof -
  assume "sublist t s"
  then obtain before after where "s = before @ t @ after" by (auto simp add: sublist_def)
  then have "map lowerChar s = map lowerChar before @ map lowerChar t @ map lowerChar after"
    by simp
  then show ?thesis unfolding sublist_def by blast
qed

lemma matchesSearch_reports_sound:
  "matchesSearch_reports q r \<Longrightarrow> matchesAnyField [namaPasien, noKib] q r"
  by (auto simp add: matchesSearch_reports_def matchesAnyField_def includes_iff_sublist
      truthy_def toLowerCase_def sublist_map_lowerChar split: if_splits)

text \<open>
  The data-table view returns exactly the records that satisfy all the supplied criteria,
  with the case-insensitive text match on its three fields, in their original order.
\<close>

lemma filteredData_exact:
  "filteredData ps q s e =
     filter (satisfiesAll [namaPasien, noKib, dpjp] q (boundOf s) (boundOf e)) ps"
  by (simp add: filteredData_def matchesDate_table_withinRange matchesSearch_table_spec
      satisfiesAll_def [abs_def])

text \<open>
  The reports view returns only records that satisfy all the supplied criteria, in their
  original order, and its date test is exact; but it can leave out records that satisfy
  them, as its text match compares the record number as typed.
\<close>

lemma filteredPatients_sound:
  "subseq (filteredPatients ps q s e)
     (filter (satisfiesAll [namaPasien, noKib] q (boundOf s) (boundOf e)) ps)"
proof -
  define P where
    "P = (\<lambda>p. matchesStartDate s p \<and> matchesEndDate e p \<and> matchesSearch_reports q p)"
  define Q where "Q = satisfiesAll [namaPasien, noKib] q (boundOf s) (boundOf e)"
  have imp: "P r \<Longrightarrow> Q r" for r
    using matchesDates_reports_withinRange [of s r e] matchesSearch_reports_sound [of q r]
    by (auto simp add: P_def Q_def satisfiesAll_def)
  have f: "(\<lambda>x. Q x \<and> P x) = P" using imp by auto
  have "subseq (filter P (filter Q ps)) (filter Q ps)" by (rule subseq_filter_left)
  then have "subseq (filter (\<lambda>x. Q x \<and> P x) ps) (filter Q ps)" by (simp only: filter_filter)
  then have "subseq (filter P ps) (filter Q ps)" by (simp only: f)
  then show ?thesis by (simp only: filteredPatients_def P_def Q_def)
qed

lemma filteredPatients_empty_query:
  "filteredPatients ps [] s e = filter (withinRange (boundOf s) (boundOf e)) ps"
proof -
  have "(\<lambda>p. matchesStartDate s p \<and> matchesEndDate e p \<and> matchesSearch_reports [] p) =
        withinRange (boundOf s) (boundOf e)"
    using matchesDates_reports_withinRange by (auto simp add: matchesSearch_empty)
  then show ?thesis by (simp add: filteredPatients_def)
qed

text \<open>
  C1. The data-table view satisfies the claim (\<open>filteredData_exact\<close>). The reports view
  does not return exactly the records that satisfy all the supplied criteria: both patients
  below lie within the date range and the query \<^verbatim>\<open>rm\<close> occurs in their lowercased record
  numbers \<^verbatim>\<open>RM-123\<close> and \<^verbatim>\<open>RM-200\<close>, and the reports view returns neither. This is the
  defect of C2, seen through the filter.
\<close>

theorem reports_filter_leaves_out_matching_records:
  "filter (satisfiesAll [namaPasien, noKib] ''rm'' (boundOf ''2024-01-01'') (boundOf ''2024-01-31''))
     [budi, siti] = [budi, siti]
   \<and> filteredPatients [budi, siti] ''rm'' ''2024-01-01'' ''2024-01-31'' = []
   \<and> filteredPatients [budi, siti] ''RM'' ''2024-01-01'' ''2024-01-31'' = [budi, siti]"
  by code_simp

text \<open>
  C8. Filtering is idempotent in both views: filtering the filtered result again by the same
  criteria returns the same sequence of records.
\<close>

theorem filtering_idempotent:
  "filteredData (filteredData ps q s e) q s e = filteredData ps q s e
   \<and> filteredPatients (filteredPatients ps q s e) q s e = filteredPatients ps q s e"
  by (simp add: filteredData_def filteredPatients_def)

theorem filtering_idempotent_witness:
  "filteredData (filteredData [budi, siti] ''BUD'' [] ''2024-01-07'') ''BUD'' [] ''2024-01-07'' = [budi]
   \<and> filteredData [budi, siti] ''BUD'' [] ''2024-01-07'' = [budi]
   \<and> filteredPatients (filteredPatients [budi, siti] ''s'' [] []) ''s'' [] [] = [siti]
   \<and> filteredPatients [budi, siti] ''s'' [] [] = [siti]"
  using filtering_idempotent [of "[budi, siti]" "''BUD''" "[]" "''2024-01-07''"]
    filtering_idempotent [of "[budi, siti]" "''s''" "[]" "[]"]
  by code_simp

text \<open>
  C2. In the data-table view the text match is the case-insensitive substring match on
  name, record number and attending physician (\<open>matchesSearch_table_spec\<close>). In the
  reports view the record number is compared as typed, without lowercasing either side:
  a match of the view is a case-insensitive match (\<open>matchesSearch_reports_sound\<close>), but
  the query \<^verbatim>\<open>rm\<close> occurs in the lowercased record number \<^verbatim>\<open>RM-123\<close> of the patient
  below and the reports view does not match the record, while the data-table view does.
\<close>

theorem reports_search_record_number_case_sensitive:
  "matchesAnyField [namaPasien, noKib] ''rm'' budi
   \<and> \<not> matchesSearch_reports ''rm'' budi
   \<and> matchesSearch_table ''rm'' budi
   \<and> filteredPatients [budi] ''rm'' [] [] = []"
  by code_simp

section \<open>Properties of the hour histogram\<close>

lemma arrivalHour_examples:
  "jamDatang r = ''14:30'' \<Longrightarrow> arrivalHour r = Some 14"
  "jamDatang r = ''25:99'' \<Longrightarrow> arrivalHour r = Some 25"
  "jamDatang r = ''-'' \<Longrightarrow> arrivalHour r = None"
  "jamDatang r = '''' \<Longrightarrow> arrivalHour r = None"
  by (simp_all add: arrivalHour_def truthy_def parseInt_def splitFirst_def isWhiteSpace_def
      digitVal_def Let_def)

lemma countArrival_alt:
  "countArrival arr p =
     (case arrivalHour p of
        None \<Rightarrow> arr
      | Some hour \<Rightarrow>
          if 0 \<le> hour \<and> hour < 2 ^ 32 - 1
          then writeElem arr (nat hour) (increment (readElem arr (nat hour)))
          else arr)"
  by (simp add: countArrival_def arrivalHour_def)

lemma binsOk_step:
  assumes "binsOk arr c"
  shows "binsOk (countArrival arr p) (\<lambda>h. c h + (if arrivalHour p = Some (int h) then 1 else 0))"
proof (cases "arrivalHour p")
  case None
  then show ?thesis using assms by (simp add: countArrival_alt)
next
  case (Some hour)
  show ?thesis
  proof (cases "0 \<le> hour \<and> hour < 2 ^ 32 - 1")
    case False
    then have ne: "\<And>h. h < 24 \<Longrightarrow> hour \<noteq> int h" by auto
    have same: "countArrival arr p = arr" using Some False by (auto simp add: countArrival_alt)
    show ?thesis unfolding same using assms Some ne by (simp add: binsOk_def)
  next
    case True
    define i where "i = nat hour"
    have hi: "hour = int i" using True by (simp add: i_def)
    show ?thesis
    proof (cases "i < length arr")
      case inb: True
      show ?thesis
        using assms Some True inb hi
        by (auto simp add: countArrival_alt binsOk_def writeElem_def readElem_def nth_list_update)
    next
      case oob: False
      then have "24 \<le> i" using assms by (simp add: binsOk_def)
      then show ?thesis
        using assms Some True oob hi
        by (auto simp add: countArrival_alt binsOk_def writeElem_def nth_append)
    qed
  qed
qed

lemma timeBins_snoc: "timeBins (ps @ [p]) = countArrival (timeBins ps) p"
  by (simp add: timeBins_def)

lemma hourCount_snoc:
  "hourCount (ps @ [p]) h = hourCount ps h + (if arrivalHour p = Some (int h) then 1 else 0)"
  by (simp add: hourCount_def)

lemma hourCount_insert:
  "hourCount (ps @ r # qs) h =
     hourCount (ps @ qs) h + (if arrivalHour r = Some (int h) then 1 else 0)"
  by (simp add: hourCount_def)

lemma binsOk_timeBins: "binsOk (timeBins ps) (hourCount ps)"
proof (induction ps rule: rev_induct)
  case Nil
  show ?case by (simp add: timeBins_def binsOk_def hourCount_def)
next
  case (snoc p ps)
  have "(\<lambda>h. hourCount ps h + (if arrivalHour p = Some (int h) then 1 else 0)) =
        hourCount (ps @ [p])"
    by (rule ext) (simp add: hourCount_snoc)
  then show ?case using binsOk_step [OF snoc.IH, of p] by (simp add: timeBins_snoc)
qed

lemma readElem_timeBins: "h < 24 \<Longrightarrow> readElem (timeBins ps) h = Num (hourCount ps h)"
  using binsOk_timeBins [of ps] by (simp add: binsOk_def readElem_def)

lemma trend_fuse:
  "List.map_filter (\<lambda>(i, cell). if 6 \<le> i \<and> i \<le> (22::nat) then cell else None)
     (enumerate n (map (\<lambda>(hour, cell). map_option (\<lambda>count. (showNat hour @ '':00'', count)) cell)
        (enumerate n arr)))
   = List.map_filter trendCell (enumerate n arr)"
  by (induction arr arbitrary: n) (auto simp add: trendCell_def split: option.splits)

lemma map_filter_append:
  "List.map_filter f (xs @ ys) = List.map_filter f xs @ List.map_filter f ys"
  by (simp add: map_filter_def)

lemma map_filter_none: "(\<And>x. x \<in> set xs \<Longrightarrow> f x = None) \<Longrightarrow> List.map_filter f xs = []"
  by (induction xs) simp_all

lemma trend_outside:
  "n + length xs \<le> 6 \<or> 23 \<le> n \<Longrightarrow> List.map_filter trendCell (enumerate n xs) = []"
  by (rule map_filter_none) (auto simp add: trendCell_def in_set_enumerate_eq)

lemma trend_inside:
  "6 \<le> n \<Longrightarrow> n + length xs \<le> 23 \<Longrightarrow>
   List.map_filter trendCell (enumerate n (map (\<lambda>v. Some (Num v)) xs)) =
   map (\<lambda>(i, v). (showNat i @ '':00'', Num v)) (enumerate n xs)"
  by (induction xs arbitrary: n) (auto simp add: trendCell_def)

lemma trend_of_bins:
  assumes "binsOk arr c"
  shows "List.map_filter trendCell (enumerate 0 arr) =
         map (\<lambda>h. (showNat h @ '':00'', Num (c h))) [6 ..< 23]"
proof -
  have len: "24 \<le> length arr" and val: "\<And>h. h < 24 \<Longrightarrow> arr ! h = Some (Num (c h))"
    using assms by (simp_all add: binsOk_def)
  define A where "A = take 6 arr"
  define B where "B = drop 6 (take 23 arr)"
  define C where "C = drop 23 arr"
  have "take 6 (take 23 arr) @ drop 6 (take 23 arr) = take 23 arr"
    by (rule append_take_drop_id)
  then have "take 23 arr = A @ B" by (simp add: A_def B_def)
  moreover have "arr = take 23 arr @ C" by (simp add: C_def)
  ultimately have split: "arr = A @ B @ C" by simp
  have lenA: "length A = 6" and lenB: "length B = 17" using len by (simp_all add: A_def B_def)
  have B: "B = map (\<lambda>v. Some (Num v)) (map c [6 ..< 23])"
  proof (rule nth_equalityI)
    show "length B = length (map (\<lambda>v. Some (Num v)) (map c [6 ..< 23]))"
      by (simp add: lenB del: upt_rec_numeral)
  next
    fix i assume "i < length B"
    then have i: "i < 17" by (simp add: lenB)
    then have "B ! i = arr ! (6 + i)" using len by (simp add: B_def)
    also have "\<dots> = Some (Num (c (6 + i)))" using i by (simp add: val)
    finally show "B ! i = map (\<lambda>v. Some (Num v)) (map c [6 ..< 23]) ! i"
      using i by (simp del: upt_rec_numeral)
  qed
  have "List.map_filter trendCell (enumerate 0 arr) =
        List.map_filter trendCell (enumerate 0 A) @
        List.map_filter trendCell (enumerate 6 B) @
        List.map_filter trendCell (enumerate 23 C)"
    by (subst split) (simp add: enumerate_append_eq map_filter_append lenA lenB)
  also have "\<dots> = List.map_filter trendCell (enumerate 6 B)"
    by (simp add: trend_outside lenA)
  also have "\<dots> = map (\<lambda>(i, v). (showNat i @ '':00'', Num v)) (enumerate 6 (map c [6 ..< 23]))"
    unfolding B by (rule trend_inside) (simp_all del: upt_rec_numeral)
  also have "\<dots> = map (\<lambda>h. (showNat h @ '':00'', Num (c h))) [6 ..< 23]"
    by (rule nth_equalityI) (simp_all add: nth_enumerate_eq del: upt_rec_numeral)
  finally show ?thesis .
qed

lemma arrivalTrendData_counts:
  "arrivalTrendData ps = map (\<lambda>h. (showNat h @ '':00'', Num (hourCount ps h))) [6 ..< 23]"
  unfolding arrivalTrendData_def Let_def trend_fuse
  by (rule trend_of_bins) (rule binsOk_timeBins)

lemma trend_names:
  "map (\<lambda>h. showNat h @ '':00'') [6 ..< 23] =
     [''6:00'', ''7:00'', ''8:00'', ''9:00'', ''10:00'', ''11:00'', ''12:00'', ''13:00'',
      ''14:00'', ''15:00'', ''16:00'', ''17:00'', ''18:00'', ''19:00'', ''20:00'', ''21:00'',
      ''22:00'']"
  by code_simp

text \<open>
  What the array itself holds after a record with arrival time \<^verbatim>\<open>25:99\<close>: the hour
  parses to 25, the write lands beyond the 24 bins, and the array grows to a hole at
  index 24 and \<open>NaN\<close> at index 25. None of the 24 bins changes and the chart, cut to the
  indices 6 to 22, does not show the new element.
\<close>

lemma timeBins_25_99:
  "timeBins [(emptyRecord ''2024-01-05'')\<lparr>jamDatang := ''25:99''\<rparr>] =
     replicate 24 (Some (Num 0)) @ [None, Some NaN]"
  by code_simp

text \<open>
  C3. Inserting a record with arrival time \<^verbatim>\<open>14:30\<close> anywhere in a collection adds
  exactly one to bin 14 and leaves the other 23 bins as they are; inserting a record with
  arrival time \<^verbatim>\<open>-\<close>, empty or \<^verbatim>\<open>25:99\<close> leaves all 24 bins and the chart data as
  they are; every bin holds a count; and the chart data are exactly the bins of the hours
  6 to 22 in increasing order, named \<^verbatim>\<open>6:00\<close> to \<^verbatim>\<open>22:00\<close>.
\<close>

theorem hour_histogram:
  "(jamDatang r = ''14:30'' \<longrightarrow>
      (\<forall>h<24. \<exists>n. readElem (timeBins (ps @ qs)) h = Num n \<and>
                     readElem (timeBins (ps @ r # qs)) h = Num (if h = 14 then n + 1 else n)))
   \<and> (jamDatang r = ''-'' \<or> jamDatang r = '''' \<or> jamDatang r = ''25:99'' \<longrightarrow>
      (\<forall>h<24. readElem (timeBins (ps @ r # qs)) h = readElem (timeBins (ps @ qs)) h)
      \<and> arrivalTrendData (ps @ r # qs) = arrivalTrendData (ps @ qs))
   \<and> (\<forall>h<24. \<exists>n. readElem (timeBins ps) h = Num n)
   \<and> arrivalTrendData ps = map (\<lambda>h. (showNat h @ '':00'', readElem (timeBins ps) h)) [6 ..< 23]
   \<and> map fst (arrivalTrendData ps) =
       [''6:00'', ''7:00'', ''8:00'', ''9:00'', ''10:00'', ''11:00'', ''12:00'', ''13:00'',
        ''14:00'', ''15:00'', ''16:00'', ''17:00'', ''18:00'', ''19:00'', ''20:00'', ''21:00'',
        ''22:00'']"
proof (intro conjI impI allI)
  fix h :: nat
  assume r: "jamDatang r = ''14:30''" and h: "h < 24"
  have "hourCount (ps @ r # qs) h = (if h = 14 then hourCount (ps @ qs) h + 1 else hourCount (ps @ qs) h)"
    using r by (auto simp add: hourCount_insert arrivalHour_examples)
  then show "\<exists>n. readElem (timeBins (ps @ qs)) h = Num n \<and>
                 readElem (timeBins (ps @ r # qs)) h = Num (if h = 14 then n + 1 else n)"
    using h by (simp add: readElem_timeBins)
next
  assume r: "jamDatang r = ''-'' \<or> jamDatang r = '''' \<or> jamDatang r = ''25:99''"
  have same: "hourCount (ps @ r # qs) h = hourCount (ps @ qs) h" if "h < 24" for h
    using r that by (auto simp add: hourCount_insert arrivalHour_examples)
  show "readElem (timeBins (ps @ r # qs)) h = readElem (timeBins (ps @ qs)) h" if "h < 24" for h
    using that by (simp add: readElem_timeBins same)
  show "arrivalTrendData (ps @ r # qs) = arrivalTrendData (ps @ qs)"
    unfolding arrivalTrendData_counts by (rule map_cong) (simp_all add: same del: upt_rec_numeral)
next
  fix h :: nat
  assume "h < 24"
  then show "\<exists>n. readElem (timeBins ps) h = Num n" by (simp add: readElem_timeBins)
next
  show "arrivalTrendData ps = map (\<lambda>h. (showNat h @ '':00'', readElem (timeBins ps) h)) [6 ..< 23]"
    unfolding arrivalTrendData_counts
    by (rule map_cong) (simp_all add: readElem_timeBins del: upt_rec_numeral)
next
  have "map fst (arrivalTrendData ps) = map (\<lambda>h. showNat h @ '':00'') [6 ..< 23]"
    unfolding arrivalTrendData_counts by (simp add: comp_def del: upt_rec_numeral)
  then show "map fst (arrivalTrendData ps) =
       [''6:00'', ''7:00'', ''8:00'', ''9:00'', ''10:00'', ''11:00'', ''12:00'', ''13:00'',
        ''14:00'', ''15:00'', ''16:00'', ''17:00'', ''18:00'', ''19:00'', ''20:00'', ''21:00'',
        ''22:00'']"
    by (simp only: trend_names)
qed

theorem hour_histogram_witness:
  "jamDatang budi = ''14:30'' \<and> jamDatang siti = ''-''
   \<and> readElem (timeBins [siti]) 14 = Num 0
   \<and> readElem (timeBins [siti, budi]) 14 = Num 1
   \<and> arrivalTrendData [budi, siti] = arrivalTrendData [budi]
   \<and> arrivalTrendData [budi] =
       [(''6:00'', Num 0), (''7:00'', Num 0), (''8:00'', Num 0), (''9:00'', Num 0),
        (''10:00'', Num 0), (''11:00'', Num 0), (''12:00'', Num 0), (''13:00'', Num 0),
        (''14:00'', Num 1), (''15:00'', Num 0), (''16:00'', Num 0), (''17:00'', Num 0),
        (''18:00'', Num 0), (''19:00'', Num 0), (''20:00'', Num 0), (''21:00'', Num 0),
        (''22:00'', Num 0)]"
proof -
  have b: "jamDatang budi = ''14:30''" and s: "jamDatang siti = ''-''" by code_simp+
  have before: "readElem (timeBins [siti]) 14 = Num 0" by code_simp
  have "\<forall>h<24. \<exists>n. readElem (timeBins ([siti] @ [])) h = Num n \<and>
            readElem (timeBins ([siti] @ budi # [])) h = Num (if h = 14 then n + 1 else n)"
    using hour_histogram [of budi "[siti]" "[]"] b by blast
  from this [rule_format, of 14]
  have "\<exists>n. readElem (timeBins [siti]) 14 = Num n \<and>
            readElem (timeBins [siti, budi]) 14 = Num (n + 1)"
    by simp
  then have after: "readElem (timeBins [siti, budi]) 14 = Num 1" using before by auto
  have same: "arrivalTrendData [budi, siti] = arrivalTrendData [budi]"
    using hour_histogram [of siti "[budi]" "[]"] s by simp
  have chart: "arrivalTrendData [budi] =
       [(''6:00'', Num 0), (''7:00'', Num 0), (''8:00'', Num 0), (''9:00'', Num 0),
        (''10:00'', Num 0), (''11:00'', Num 0), (''12:00'', Num 0), (''13:00'', Num 0),
        (''14:00'', Num 1), (''15:00'', Num 0), (''16:00'', Num 0), (''17:00'', Num 0),
        (''18:00'', Num 0), (''19:00'', Num 0), (''20:00'', Num 0), (''21:00'', Num 0),
        (''22:00'', Num 0)]"
    by code_simp
  show ?thesis using b s before after same chart by simp
qed

section \<open>Properties of the category counts\<close>

lemma priorityData_explicit:
  "priorityData ps =
     [(''P1'', length (filter (\<lambda>pt. prioritas pt = ''P1'') ps)),
      (''P2'', length (filter (\<lambda>pt. prioritas pt = ''P2'') ps)),
      (''P3'', length (filter (\<lambda>pt. prioritas pt = ''P3'') ps)),
      (''P4'', length (filter (\<lambda>pt. prioritas pt = ''P4'') ps)),
      (''P5'', length (filter (\<lambda>pt. prioritas pt = ''P5'') ps))]"
  by (simp add: priorityData_def)

lemma priorityData_sum:
  "\<forall>p \<in> set ps. prioritas p \<in> {''P1'', ''P2'', ''P3'', ''P4'', ''P5''} \<Longrightarrow>
   sum_list (map snd (priorityData ps)) = length ps"
  unfolding priorityData_explicit by (induction ps) auto

lemma map_of_updateOwn:
  "map_of (updateOwn obj k v) k' = (if k' = k then Some v else map_of obj k')"
  by (induction obj) auto

lemma map_fst_updateOwn:
  "map fst (updateOwn obj k v) =
     (if k \<in> set (map fst obj) then map fst obj else map fst obj @ [k])"
proof (induction obj)
  case Nil
  show ?case by simp
next
  case (Cons e obj)
  obtain k' v' where e: "e = (k', v')" by (cases e)
  show ?case using Cons e by (cases "k' = k") auto
qed

lemma keys_updateOwn: "set (map fst (updateOwn obj k v)) = insert k (set (map fst obj))"
  by (auto simp add: map_fst_updateOwn)

lemma distinct_updateOwn: "distinct (map fst obj) \<Longrightarrow> distinct (map fst (updateOwn obj k v))"
  by (simp add: map_fst_updateOwn)

lemma plusOne_orZero_nonzero: "plusOne (orZero v) \<noteq> Num 0"
  by (cases v) (simp_all add: orZero_def)

lemma getProp_ordinary:
  "ordinaryKey k \<Longrightarrow> getProp obj k = (case map_of obj k of Some v \<Rightarrow> v | None \<Rightarrow> Undefined)"
  by (simp add: getProp_def ordinaryKey_def split: option.splits)

lemma ketCount_snoc: "ketCount (ps @ [p]) k = ketCount ps k + (if ket p = k then 1 else 0)"
  by (simp add: ketCount_def)

lemma statusInv_step:
  assumes inv: "statusInv obj ps"
  shows "statusInv (countStatus obj p) (ps @ [p])"
proof (cases "ket p = ''__proto__''")
  case True
  then have same: "countStatus obj p = obj" by (simp add: countStatus_def setProp_def)
  have "ketCount (ps @ [p]) k = ketCount ps k" if "ordinaryKey k" for k
    using that True by (auto simp add: ketCount_snoc ordinaryKey_def)
  then show ?thesis using inv unfolding same statusInv_def by auto
next
  case False
  define v where "v = plusOne (orZero (getProp obj (ket p)))"
  have upd: "countStatus obj p = updateOwn obj (ket p) v"
    using False by (simp add: countStatus_def setProp_def v_def)
  have d: "distinct (map fst (updateOwn obj (ket p) v))"
    using inv by (simp add: statusInv_def distinct_updateOwn)
  have ord: "map_of (updateOwn obj (ket p) v) k =
      (if ketCount (ps @ [p]) k = 0 then None else Some (Num (ketCount (ps @ [p]) k)))"
    if k: "ordinaryKey k" for k
  proof (cases "k = ket p")
    case kp: True
    have old: "map_of obj k = (if ketCount ps k = 0 then None else Some (Num (ketCount ps k)))"
      using inv k by (simp add: statusInv_def)
    have "v = Num (ketCount ps k + 1)"
      using old k kp by (simp add: v_def getProp_ordinary orZero_def)
    then show ?thesis using kp by (simp add: map_of_updateOwn ketCount_snoc)
  next
    case kp: False
    then show ?thesis using inv k by (simp add: map_of_updateOwn ketCount_snoc statusInv_def)
  qed
  have own: "k \<in> ket ` set (ps @ [p]) \<and> w \<noteq> Num 0"
    if "map_of (updateOwn obj (ket p) v) k = Some w" for k w
    using that inv by (auto simp add: map_of_updateOwn statusInv_def v_def plusOne_orZero_nonzero
        split: if_splits)
  show ?thesis unfolding upd statusInv_def using d ord own by blast
qed

lemma statusCounts_snoc: "statusCounts (ps @ [p]) = countStatus (statusCounts ps) p"
  by (simp add: statusCounts_def)

lemma statusInv_statusCounts: "statusInv (statusCounts ps) ps"
proof (induction ps rule: rev_induct)
  case Nil
  show ?case by (simp add: statusCounts_def statusInv_def ketCount_def)
next
  case (snoc p ps)
  then show ?case by (simp add: statusCounts_snoc statusInv_step)
qed

lemma set_Object_keys: "set (Object_keys obj) = set (map fst obj)"
  by (auto simp add: Object_keys_def)

lemma distinct_Object_keys: "distinct (map fst obj) \<Longrightarrow> distinct (Object_keys obj)"
  by (auto simp add: Object_keys_def)

lemma getProp_own: "map_of obj k = Some v \<Longrightarrow> getProp obj k = v"
  by (simp add: getProp_def)

lemma set_statusData:
  "set (statusData ps) = set (statusCounts ps)"
proof -
  have d: "distinct (map fst (statusCounts ps))"
    using statusInv_statusCounts [of ps] by (simp add: statusInv_def)
  show ?thesis
  proof (intro set_eqI iffI)
    fix e assume "e \<in> set (statusData ps)"
    then obtain k where k: "k \<in> set (map fst (statusCounts ps))"
      and e: "e = (k, getProp (statusCounts ps) k)"
      by (auto simp add: statusData_def set_Object_keys)
    from k obtain v where kv: "(k, v) \<in> set (statusCounts ps)" by auto
    then have "map_of (statusCounts ps) k = Some v" using d by simp
    then show "e \<in> set (statusCounts ps)" using e kv by (simp add: getProp_own)
  next
    fix e assume e: "e \<in> set (statusCounts ps)"
    obtain k v where kv: "e = (k, v)" by (cases e)
    then have "map_of (statusCounts ps) k = Some v" using d e by simp
    then have "getProp (statusCounts ps) k = v" by (rule getProp_own)
    moreover have "k \<in> set (Object_keys (statusCounts ps))"
      using e kv by (force simp add: set_Object_keys)
    ultimately show "e \<in> set (statusData ps)"
      using kv by (force simp add: statusData_def)
  qed
qed

lemma distinct_statusData: "distinct (map fst (statusData ps))"
proof -
  have "distinct (map fst (statusCounts ps))"
    using statusInv_statusCounts [of ps] by (simp add: statusInv_def)
  then have "distinct (Object_keys (statusCounts ps))" by (rule distinct_Object_keys)
  moreover have "map fst (statusData ps) = Object_keys (statusCounts ps)"
    by (simp add: statusData_def comp_def)
  ultimately show ?thesis by simp
qed

lemma statusData_entry:
  "(k, v) \<in> set (statusData ps) \<longleftrightarrow> map_of (statusCounts ps) k = Some v"
  using statusInv_statusCounts [of ps] by (simp add: set_statusData statusInv_def)

lemma statusData_ordinary:
  assumes "ordinaryKey k"
  shows "(k, v) \<in> set (statusData ps) \<longleftrightarrow> ketCount ps k \<noteq> 0 \<and> v = Num (ketCount ps k)"
  using statusInv_statusCounts [of ps] assms by (auto simp add: statusData_entry statusInv_def)

text \<open>
  C4. The priority counts always have the five entries P1 to P5 in this order, each with
  the number of records of that priority, and when every record has one of the five
  priorities the counts add up to the size of the collection. The disposition counts have
  entries only for dispositions observed in the collection, at most one per disposition,
  and none of them is zero.
\<close>

theorem category_counts:
  "priorityData ps =
     [(''P1'', length (filter (\<lambda>pt. prioritas pt = ''P1'') ps)),
      (''P2'', length (filter (\<lambda>pt. prioritas pt = ''P2'') ps)),
      (''P3'', length (filter (\<lambda>pt. prioritas pt = ''P3'') ps)),
      (''P4'', length (filter (\<lambda>pt. prioritas pt = ''P4'') ps)),
      (''P5'', length (filter (\<lambda>pt. prioritas pt = ''P5'') ps))]
   \<and> ((\<forall>p \<in> set ps. prioritas p \<in> {''P1'', ''P2'', ''P3'', ''P4'', ''P5''}) \<longrightarrow>
        sum_list (map snd (priorityData ps)) = length ps)
   \<and> (\<forall>e \<in> set (statusData ps). fst e \<in> ket ` set ps \<and> snd e \<noteq> Num 0)
   \<and> distinct (map fst (statusData ps))"
proof (intro conjI impI ballI)
  show "priorityData ps =
     [(''P1'', length (filter (\<lambda>pt. prioritas pt = ''P1'') ps)),
      (''P2'', length (filter (\<lambda>pt. prioritas pt = ''P2'') ps)),
      (''P3'', length (filter (\<lambda>pt. prioritas pt = ''P3'') ps)),
      (''P4'', length (filter (\<lambda>pt. prioritas pt = ''P4'') ps)),
      (''P5'', length (filter (\<lambda>pt. prioritas pt = ''P5'') ps))]"
    by (rule priorityData_explicit)
next
  assume "\<forall>p \<in> set ps. prioritas p \<in> {''P1'', ''P2'', ''P3'', ''P4'', ''P5''}"
  then show "sum_list (map snd (priorityData ps)) = length ps" by (rule priorityData_sum)
next
  fix e assume e: "e \<in> set (statusData ps)"
  obtain k v where kv: "e = (k, v)" by (cases e)
  then have m: "map_of (statusCounts ps) k = Some v"
    using e by (simp add: statusData_entry)
  have "k \<in> ket ` set ps \<and> v \<noteq> Num 0"
    using statusInv_statusCounts [of ps] m unfolding statusInv_def by blast
  then show "fst e \<in> ket ` set ps" "snd e \<noteq> Num 0" using kv by simp_all
next
  show "distinct (map fst (statusData ps))" by (rule distinct_statusData)
qed

theorem category_counts_witness:
  "prioritas budi = ''P1'' \<and> prioritas siti = ''P2''
   \<and> priorityData [budi, siti] = [(''P1'', 1), (''P2'', 1), (''P3'', 0), (''P4'', 0), (''P5'', 0)]
   \<and> sum_list (map snd (priorityData [budi, siti])) = length [budi, siti]
   \<and> statusData [budi, siti, budi] = [(''Rawat Inap'', Num 2), (''Rawat Jalan'', Num 1)]"
proof -
  have h: "\<forall>p \<in> set [budi, siti]. prioritas p \<in> {''P1'', ''P2'', ''P3'', ''P4'', ''P5''}"
    by code_simp
  have s: "sum_list (map snd (priorityData [budi, siti])) = length [budi, siti]"
    using category_counts [of "[budi, siti]"] h by blast
  have p: "priorityData [budi, siti] = [(''P1'', 1), (''P2'', 1), (''P3'', 0), (''P4'', 0), (''P5'', 0)]"
    by code_simp
  have d: "statusData [budi, siti, budi] = [(''Rawat Inap'', Num 2), (''Rawat Jalan'', Num 1)]"
    by code_simp
  have q: "prioritas budi = ''P1''" "prioritas siti = ''P2''" by code_simp+
  show ?thesis using q s p d by blast
qed

lemma ketCount_count_list: "ketCount ps k = count_list (map ket ps) k"
  by (induction ps) (auto simp add: ketCount_def)

lemma ketCount_sum: "sum (ketCount ps) (ket ` set ps) = length ps"
proof -
  have "sum (count_list (map ket ps)) (set (map ket ps)) = length (map ket ps)"
    by (rule sum_count_set) simp_all
  then show ?thesis by (simp add: ketCount_count_list [abs_def])
qed

lemma ketCount_zero_iff: "ketCount ps k = 0 \<longleftrightarrow> k \<notin> ket ` set ps"
  by (auto simp add: ketCount_def filter_empty_conv)

text \<open>
  When no disposition of the collection collides with a property of the prototype of plain
  objects, the disposition counts partition the collection: there is exactly one entry for
  each observed disposition, it holds the number of records with that disposition, and
  the counts add up to the size of the collection.
\<close>

lemma statusData_partition:
  assumes ord: "\<forall>p \<in> set ps. ordinaryKey (ket p)"
  shows "fst ` set (statusData ps) = ket ` set ps"
    and "\<forall>e \<in> set (statusData ps). snd e = Num (ketCount ps (fst e))"
    and "sum_list (map (valNum \<circ> snd) (statusData ps)) = length ps"
proof -
  have entry: "(k, v) \<in> set (statusData ps) \<longleftrightarrow> k \<in> ket ` set ps \<and> v = Num (ketCount ps k)"
    for k v
  proof (cases "k \<in> ket ` set ps")
    case True
    then have "ordinaryKey k" using ord by auto
    then show ?thesis using True by (simp add: statusData_ordinary ketCount_zero_iff)
  next
    case False
    have "(k, v) \<notin> set (statusData ps)"
    proof
      assume "(k, v) \<in> set (statusData ps)"
      then have "map_of (statusCounts ps) k = Some v" by (simp add: statusData_entry)
      then have "k \<in> ket ` set ps"
        using statusInv_statusCounts [of ps] unfolding statusInv_def by blast
      then show False using False by simp
    qed
    then show ?thesis using False by simp
  qed
  show keys: "fst ` set (statusData ps) = ket ` set ps"
  proof (intro set_eqI iffI)
    fix k assume "k \<in> fst ` set (statusData ps)"
    then obtain v where "(k, v) \<in> set (statusData ps)" by auto
    then show "k \<in> ket ` set ps" by (simp add: entry)
  next
    fix k assume "k \<in> ket ` set ps"
    then have "(k, Num (ketCount ps k)) \<in> set (statusData ps)" by (simp add: entry)
    then show "k \<in> fst ` set (statusData ps)" by force
  qed
  show vals: "\<forall>e \<in> set (statusData ps). snd e = Num (ketCount ps (fst e))"
  proof
    fix e assume e: "e \<in> set (statusData ps)"
    obtain k v where kv: "e = (k, v)" by (cases e)
    then show "snd e = Num (ketCount ps (fst e))" using e by (simp add: entry)
  qed
  have m: "map (valNum \<circ> snd) (statusData ps) = map (ketCount ps) (map fst (statusData ps))"
    using vals by simp
  have "sum_list (map (valNum \<circ> snd) (statusData ps)) =
        sum_list (map (ketCount ps) (map fst (statusData ps)))"
    by (simp only: m)
  also have "\<dots> = sum (ketCount ps) (set (map fst (statusData ps)))"
    using distinct_statusData [of ps] by (simp only: sum_list_distinct_conv_sum_set)
  also have "\<dots> = length ps" using keys by (simp add: ketCount_sum)
  finally show "sum_list (map (valNum \<circ> snd) (statusData ps)) = length ps" .
qed

text \<open>
  C10. The counts are kept in a plain object, and a disposition that names a property of
  its prototype is not counted. A record whose disposition is \<^verbatim>\<open>__proto__\<close> reads the
  prototype object, and the assignment of the string \<^verbatim>\<open>[object Object]1\<close> to that
  accessor is ignored: the record leaves no entry and the counts of a collection of one
  record add up to zero. A record whose disposition is \<^verbatim>\<open>constructor\<close> reads the
  inherited function and stores a string, not a count. For every other collection the
  counts partition it (\<open>statusData_partition\<close>).
\<close>

theorem status_counts_miss_prototype_keys:
  "statusData [siti\<lparr>ket := ''__proto__''\<rparr>] = []
   \<and> sum_list (map (valNum \<circ> snd) (statusData [siti\<lparr>ket := ''__proto__''\<rparr>])) = 0
   \<and> length [siti\<lparr>ket := ''__proto__''\<rparr>] = 1
   \<and> statusData [budi, siti\<lparr>ket := ''__proto__''\<rparr>, siti] =
       [(''Rawat Inap'', Num 1), (''Rawat Jalan'', Num 1)]
   \<and> statusData [budi, siti\<lparr>ket := ''constructor''\<rparr>] =
       [(''Rawat Inap'', Num 1), (''constructor'', Str ''function Object() { [native code] }1'')]"
  by code_simp

section \<open>Properties of the CRUD orchestration\<close>

lemma newEvents_append: "trace st' = trace st @ es \<Longrightarrow> newEvents st st' = es"
  by (simp add: newEvents_def)

lemma handleDelete_resolved:
  assumes "deletePatientFromDB db i (remote st) = (Resolved u, r)"
  shows "data (handleDelete db True i st) = filter (\<lambda>item. id' item \<noteq> i) (data st)"
    and "trace (handleDelete db True i st) =
           trace st @ [CallDelete i, OnUpdate (filter (\<lambda>item. id' item \<noteq> i) (data st)),
                       OnNotification ''Data pasien berhasil dihapus.'']"
  using assms
  by (simp_all add: handleDelete_def Let_def onUpdate_def onNotification_def emit_def unselect_def)

lemma handleDelete_rejected:
  assumes "deletePatientFromDB db i (remote st) = (Rejected, r)"
  shows "data (handleDelete db confirmed i st) = data st"
    and "trace (handleDelete db True i st) =
           trace st @ [CallDelete i, ConsoleError, OnNotification ''Gagal menghapus data.'']"
  using assms
  by (simp_all add: handleDelete_def Let_def onNotification_def emit_def)

lemma handleDelete_declined: "handleDelete db False i st = st"
  by (simp add: handleDelete_def)

lemma handleDeleteFromForm_resolved:
  assumes "deletePatientFromDB db i (remote st) = (Resolved u, r)"
  shows "data (handleDeleteFromForm db i st) = filter (\<lambda>item. id' item \<noteq> i) (data st)"
    and "trace (handleDeleteFromForm db i st) =
           trace st @ [CallDelete i, OnUpdate (filter (\<lambda>item. id' item \<noteq> i) (data st)),
                       OnNotification ''Data pasien berhasil dihapus.'']"
  using assms
  by (simp_all add: handleDeleteFromForm_def Let_def onUpdate_def onNotification_def emit_def
      unselect_def closeForm_def)

lemma handleDeleteFromForm_rejected:
  assumes "deletePatientFromDB db i (remote st) = (Rejected, r)"
  shows "data (handleDeleteFromForm db i st) = data st"
    and "trace (handleDeleteFromForm db i st) =
           trace st @ [CallDelete i, ConsoleError, OnNotification ''Gagal menghapus data.'']"
  using assms
  by (simp_all add: handleDeleteFromForm_def Let_def onNotification_def emit_def)

lemma handleSaveForm_edit_resolved:
  assumes "editingItem st \<noteq> None" "updatePatientInDB db record (remote st) = (Resolved u, r)"
  shows "data (handleSaveForm db record st) =
           map (\<lambda>item. if id' item = id' record then record else item) (data st)"
    and "trace (handleSaveForm db record st) =
           trace st @ [CallUpdate record,
                       OnUpdate (map (\<lambda>item. if id' item = id' record then record else item) (data st)),
                       OnNotification ''Perubahan data berhasil disimpan ke Sheet.'']"
  using assms
  by (simp_all add: handleSaveForm_def Let_def onUpdate_def onNotification_def emit_def
      closeForm_def)

lemma handleSaveForm_edit_rejected:
  assumes "editingItem st \<noteq> None" "updatePatientInDB db record (remote st) = (Rejected, r)"
  shows "data (handleSaveForm db record st) = data st"
    and "trace (handleSaveForm db record st) =
           trace st @ [CallUpdate record, ConsoleError,
                       OnNotification ''Gagal menyimpan data ke database.'']"
  using assms
  by (simp_all add: handleSaveForm_def Let_def onNotification_def emit_def)

text \<open>
  C5. Update and delete call the store first and touch the local collection only after
  the call has succeeded. When the call is rejected the local collection is what it was,
  and the handler has called the store, logged the error and notified the failure, in this
  order, with no \<open>OnUpdate\<close>; when the call succeeds the events are the call, then the
  \<open>OnUpdate\<close> of the local collection, then the notification. A declined confirmation
  changes nothing.
\<close>

theorem update_delete_remote_first:
  "(fst (deletePatientFromDB db i (remote st)) = Rejected \<longrightarrow>
      data (handleDelete db confirmed i st) = data st
      \<and> data (handleDeleteFromForm db i st) = data st
      \<and> newEvents st (handleDelete db True i st) =
          [CallDelete i, ConsoleError, OnNotification ''Gagal menghapus data.''])
   \<and> (editingItem st \<noteq> None \<and> fst (updatePatientInDB db record (remote st)) = Rejected \<longrightarrow>
      data (handleSaveForm db record st) = data st
      \<and> newEvents st (handleSaveForm db record st) =
          [CallUpdate record, ConsoleError, OnNotification ''Gagal menyimpan data ke database.''])
   \<and> (fst (deletePatientFromDB db i (remote st)) = Resolved () \<longrightarrow>
      newEvents st (handleDelete db True i st) =
          [CallDelete i, OnUpdate (data (handleDelete db True i st)),
           OnNotification ''Data pasien berhasil dihapus.''])
   \<and> (editingItem st \<noteq> None \<and> fst (updatePatientInDB db record (remote st)) = Resolved () \<longrightarrow>
      newEvents st (handleSaveForm db record st) =
          [CallUpdate record, OnUpdate (data (handleSaveForm db record st)),
           OnNotification ''Perubahan data berhasil disimpan ke Sheet.''])
   \<and> handleDelete db False i st = st"
proof (intro conjI impI)
  assume "fst (deletePatientFromDB db i (remote st)) = Rejected"
  then obtain r where del: "deletePatientFromDB db i (remote st) = (Rejected, r)"
    by (cases "deletePatientFromDB db i (remote st)") simp
  show "data (handleDelete db confirmed i st) = data st"
    using del by (rule handleDelete_rejected)
  show "data (handleDeleteFromForm db i st) = data st"
    using del by (rule handleDeleteFromForm_rejected)
  show "newEvents st (handleDelete db True i st) =
          [CallDelete i, ConsoleError, OnNotification ''Gagal menghapus data.'']"
    by (rule newEvents_append) (rule handleDelete_rejected [OF del])
next
  assume "editingItem st \<noteq> None \<and> fst (updatePatientInDB db record (remote st)) = Rejected"
  then obtain r where ed: "editingItem st \<noteq> None"
    and upd: "updatePatientInDB db record (remote st) = (Rejected, r)"
    by (cases "updatePatientInDB db record (remote st)") simp
  show "data (handleSaveForm db record st) = data st"
    using ed upd by (rule handleSaveForm_edit_rejected)
  show "newEvents st (handleSaveForm db record st) =
          [CallUpdate record, ConsoleError, OnNotification ''Gagal menyimpan data ke database.'']"
    by (rule newEvents_append) (rule handleSaveForm_edit_rejected [OF ed upd])
next
  assume "fst (deletePatientFromDB db i (remote st)) = Resolved ()"
  then obtain r where del: "deletePatientFromDB db i (remote st) = (Resolved (), r)"
    by (cases "deletePatientFromDB db i (remote st)") simp
  show "newEvents st (handleDelete db True i st) =
          [CallDelete i, OnUpdate (data (handleDelete db True i st)),
           OnNotification ''Data pasien berhasil dihapus.'']"
    by (rule newEvents_append) (simp add: handleDelete_resolved [OF del])
next
  assume "editingItem st \<noteq> None \<and> fst (updatePatientInDB db record (remote st)) = Resolved ()"
  then obtain r where ed: "editingItem st \<noteq> None"
    and upd: "updatePatientInDB db record (remote st) = (Resolved (), r)"
    by (cases "updatePatientInDB db record (remote st)") simp
  show "newEvents st (handleSaveForm db record st) =
          [CallUpdate record, OnUpdate (data (handleSaveForm db record st)),
           OnNotification ''Perubahan data berhasil disimpan ke Sheet.'']"
    by (rule newEvents_append) (simp add: handleSaveForm_edit_resolved [OF ed upd])
next
  show "handleDelete db False i st = st" by (rule handleDelete_declined)
qed

theorem update_delete_remote_first_witness:
  "fst (deletePatientFromDB offlineStore ''a1'' (remote sampleTable)) = Rejected
   \<and> editingItem sampleTable \<noteq> None
   \<and> fst (updatePatientInDB offlineStore (budi\<lparr>ket := ''Rujuk''\<rparr>) (remote sampleTable)) = Rejected
   \<and> data (handleDelete offlineStore True ''a1'' sampleTable) = [budi, siti]
   \<and> data (handleSaveForm offlineStore (budi\<lparr>ket := ''Rujuk''\<rparr>) sampleTable) = [budi, siti]
   \<and> fst (deletePatientFromDB acceptingStore ''a1'' (remote sampleTable)) = Resolved ()
   \<and> newEvents sampleTable (handleDelete acceptingStore True ''a1'' sampleTable) =
       [CallDelete ''a1'', OnUpdate [siti], OnNotification ''Data pasien berhasil dihapus.'']"
proof -
  have h: "fst (deletePatientFromDB offlineStore ''a1'' (remote sampleTable)) = Rejected"
    "editingItem sampleTable \<noteq> None"
    "fst (updatePatientInDB offlineStore (budi\<lparr>ket := ''Rujuk''\<rparr>) (remote sampleTable)) = Rejected"
    "fst (deletePatientFromDB acceptingStore ''a1'' (remote sampleTable)) = Resolved ()"
    by (simp_all add: offlineStore_def acceptingStore_def sampleTable_def)
  have d: "data sampleTable = [budi, siti]" by (simp add: sampleTable_def)
  have del: "data (handleDelete acceptingStore True ''a1'' sampleTable) = [siti]" by code_simp
  note t = update_delete_remote_first [of offlineStore "''a1''" sampleTable True "budi\<lparr>ket := ''Rujuk''\<rparr>"]
  note t' = update_delete_remote_first [of acceptingStore "''a1''" sampleTable True budi]
  show ?thesis using t t' h d del by simp
qed

text \<open>
  C7. A successful update puts the saved record at exactly the positions whose record has
  its id and leaves every other position, and the length, as they were. A successful
  delete (from the table or from the form) leaves exactly the records whose id differs
  from the given one, in their original order.
\<close>

theorem id_sole_identity:
  "(editingItem st \<noteq> None \<and> fst (updatePatientInDB db record (remote st)) = Resolved () \<longrightarrow>
      length (data (handleSaveForm db record st)) = length (data st)
      \<and> (\<forall>k < length (data st).
            data (handleSaveForm db record st) ! k =
              (if id' (data st ! k) = id' record then record else data st ! k)))
   \<and> (fst (deletePatientFromDB db i (remote st)) = Resolved () \<longrightarrow>
      data (handleDelete db True i st) = filter (\<lambda>item. id' item \<noteq> i) (data st)
      \<and> data (handleDeleteFromForm db i st) = filter (\<lambda>item. id' item \<noteq> i) (data st)
      \<and> subseq (data (handleDelete db True i st)) (data st)
      \<and> set (data (handleDelete db True i st)) = {item \<in> set (data st). id' item \<noteq> i})"
proof (intro conjI impI allI)
  assume "editingItem st \<noteq> None \<and> fst (updatePatientInDB db record (remote st)) = Resolved ()"
  then obtain r where ed: "editingItem st \<noteq> None"
    and upd: "updatePatientInDB db record (remote st) = (Resolved (), r)"
    by (cases "updatePatientInDB db record (remote st)") simp
  note eq = handleSaveForm_edit_resolved(1) [OF ed upd]
  show "length (data (handleSaveForm db record st)) = length (data st)"
    by (simp add: eq)
  fix k assume "k < length (data st)"
  then show "data (handleSaveForm db record st) ! k =
              (if id' (data st ! k) = id' record then record else data st ! k)"
    by (simp add: eq)
next
  assume "fst (deletePatientFromDB db i (remote st)) = Resolved ()"
  then obtain r where del: "deletePatientFromDB db i (remote st) = (Resolved (), r)"
    by (cases "deletePatientFromDB db i (remote st)") simp
  show eq: "data (handleDelete db True i st) = filter (\<lambda>item. id' item \<noteq> i) (data st)"
    using del by (rule handleDelete_resolved)
  show "data (handleDeleteFromForm db i st) = filter (\<lambda>item. id' item \<noteq> i) (data st)"
    using del by (rule handleDeleteFromForm_resolved)
  show "subseq (data (handleDelete db True i st)) (data st)"
    by (simp add: eq)
  show "set (data (handleDelete db True i st)) = {item \<in> set (data st). id' item \<noteq> i}"
    by (simp add: eq)
qed

theorem id_sole_identity_witness:
  "editingItem sampleTable \<noteq> None
   \<and> fst (updatePatientInDB acceptingStore (budi\<lparr>ket := ''Rujuk''\<rparr>) (remote sampleTable)) = Resolved ()
   \<and> fst (deletePatientFromDB acceptingStore ''a1'' (remote sampleTable)) = Resolved ()
   \<and> data (handleSaveForm acceptingStore (budi\<lparr>ket := ''Rujuk''\<rparr>) sampleTable) ! 0 = budi\<lparr>ket := ''Rujuk''\<rparr>
   \<and> data (handleSaveForm acceptingStore (budi\<lparr>ket := ''Rujuk''\<rparr>) sampleTable) ! 1 = siti
   \<and> data (handleDelete acceptingStore True ''a1'' sampleTable) = [siti]"
proof -
  have h: "editingItem sampleTable \<noteq> None"
    "fst (updatePatientInDB acceptingStore (budi\<lparr>ket := ''Rujuk''\<rparr>) (remote sampleTable)) = Resolved ()"
    "fst (deletePatientFromDB acceptingStore ''a1'' (remote sampleTable)) = Resolved ()"
    by (simp_all add: acceptingStore_def sampleTable_def)
  have d: "data sampleTable = [budi, siti]" by (simp add: sampleTable_def)
  have ids: "id' budi = ''a1''" "id' siti = ''b2''" by code_simp+
  note t = id_sole_identity [of sampleTable acceptingStore "budi\<lparr>ket := ''Rujuk''\<rparr>" "''a1''"]
  from t h have pos: "\<forall>k < length (data sampleTable).
        data (handleSaveForm acceptingStore (budi\<lparr>ket := ''Rujuk''\<rparr>) sampleTable) ! k =
          (if id' (data sampleTable ! k) = id' (budi\<lparr>ket := ''Rujuk''\<rparr>)
           then budi\<lparr>ket := ''Rujuk''\<rparr> else data sampleTable ! k)"
    and del: "data (handleDelete acceptingStore True ''a1'' sampleTable) =
          filter (\<lambda>item. id' item \<noteq> ''a1'') (data sampleTable)"
    by blast+
  have p0: "data (handleSaveForm acceptingStore (budi\<lparr>ket := ''Rujuk''\<rparr>) sampleTable) ! 0 = budi\<lparr>ket := ''Rujuk''\<rparr>"
    using pos [rule_format, of 0] by (simp add: d ids)
  have p1: "data (handleSaveForm acceptingStore (budi\<lparr>ket := ''Rujuk''\<rparr>) sampleTable) ! 1 = siti"
    using pos [rule_format, of 1] by (simp add: d ids)
  have dl: "data (handleDelete acceptingStore True ''a1'' sampleTable) = [siti]"
    using del by (simp add: d ids)
  show ?thesis using h p0 p1 dl by simp
qed

lemma submitted_CallAdd: "submitted (map CallAdd items) = items"
  by (induction items) simp_all

lemma length_createAnswers: "length (createAnswers db r items) = length items"
  by (induction items arbitrary: r) (simp_all split: prod.splits)

lemma addItems_data: "data (snd (addItems db items acc st)) = data st"
  by (induction items arbitrary: acc st) (simp_all add: emit_def split: prod.splits awaited.splits)

lemma addItems_trace:
  "trace (snd (addItems db items acc st)) =
     trace st @ map CallAdd (take (callsMade (createAnswers db (remote st) items)) items)"
proof (induction items arbitrary: acc st)
  case Nil
  show ?case by (simp add: callsMade_def)
next
  case (Cons item rest)
  obtain a r where call: "addPatientToDB db item (remote st) = (a, r)"
    by (cases "addPatientToDB db item (remote st)")
  show ?case
  proof (cases a)
    case Rejected
    then show ?thesis using call by (simp add: emit_def callsMade_def)
  next
    case (Resolved newId)
    have "callsMade (Resolved newId # createAnswers db r rest) =
          Suc (callsMade (createAnswers db r rest))"
      by (simp add: callsMade_def)
    then show ?thesis using call Resolved Cons.IH by (simp add: emit_def)
  qed
qed

lemma addItems_result:
  "fst (addItems db items acc st) =
     (if Rejected \<in> set (createAnswers db (remote st) items) then Rejected
      else Resolved (acc @ confirmedItems items (createAnswers db (remote st) items)))"
proof (induction items arbitrary: acc st)
  case Nil
  show ?case by simp
next
  case (Cons item rest)
  obtain a r where call: "addPatientToDB db item (remote st) = (a, r)"
    by (cases "addPatientToDB db item (remote st)")
  show ?case
  proof (cases a)
    case Rejected
    then show ?thesis using call by simp
  next
    case (Resolved newId)
    then show ?thesis using call Cons.IH by (simp add: emit_def truthy_def)
  qed
qed

lemma length_confirmedItems:
  "Rejected \<notin> set answers \<Longrightarrow> length answers = length items \<Longrightarrow>
   length (confirmedItems items answers) = length (filter returnedIdentity answers)"
proof (induction items answers rule: confirmedItems.induct)
  case (1 item items newId answers)
  then show ?case by (simp add: returnedIdentity_def)
qed (simp_all add: returnedIdentity_def)

lemma handleFileImport_completed:
  assumes new: "newItems = filter (\<lambda>d. noKib d \<notin> set (map noKib (data st))) importedData"
    and ans: "answers = createAnswers db (remote st) newItems"
    and ok: "Rejected \<notin> set answers" and ne: "newItems \<noteq> []"
  shows "data (handleFileImport db (Items importedData) True st) =
           confirmedItems newItems answers @ data st"
    and "trace (handleFileImport db (Items importedData) True st) =
           trace st @ map CallAdd newItems @
             [OnUpdate (confirmedItems newItems answers @ data st),
              OnNotification (''Berhasil mengimpor '' @
                 showNat (length (filter returnedIdentity answers)) @ '' data ke database.'')]"
proof -
  obtain res st1 where run: "addItems db newItems [] st = (res, st1)"
    by (cases "addItems db newItems [] st")
  have res: "res = Resolved (confirmedItems newItems answers)"
    using addItems_result [of db newItems "[]" st] run ok ans by simp
  have len: "length answers = length newItems" by (simp add: ans length_createAnswers)
  have tr: "trace st1 = trace st @ map CallAdd newItems"
    using addItems_trace [of db newItems "[]" st] run ok ans len by (simp add: callsMade_def)
  have cnt: "length (confirmedItems newItems answers) = length (filter returnedIdentity answers)"
    using ok len by (rule length_confirmedItems)
  show "data (handleFileImport db (Items importedData) True st) =
           confirmedItems newItems answers @ data st"
    using run res ne new by (simp add: handleFileImport_def Let_def onUpdate_def onNotification_def emit_def)
  show "trace (handleFileImport db (Items importedData) True st) =
           trace st @ map CallAdd newItems @
             [OnUpdate (confirmedItems newItems answers @ data st),
              OnNotification (''Berhasil mengimpor '' @
                 showNat (length (filter returnedIdentity answers)) @ '' data ke database.'')]"
    using run res ne new tr cnt
    by (simp add: handleFileImport_def Let_def onUpdate_def onNotification_def emit_def)
qed

lemma handleFileImport_aborted:
  assumes new: "newItems = filter (\<lambda>d. noKib d \<notin> set (map noKib (data st))) importedData"
    and ans: "answers = createAnswers db (remote st) newItems"
    and bad: "Rejected \<in> set answers"
  shows "data (handleFileImport db (Items importedData) True st) = data st"
    and "trace (handleFileImport db (Items importedData) True st) =
           trace st @ map CallAdd (take (callsMade answers) newItems) @
             [Alert ''Gagal membaca file atau koneksi error.'']"
proof -
  obtain res st1 where run: "addItems db newItems [] st = (res, st1)"
    by (cases "addItems db newItems [] st")
  have ne: "newItems \<noteq> []" using bad ans by auto
  have res: "res = Rejected"
    using addItems_result [of db newItems "[]" st] run bad ans by simp
  have tr: "trace st1 = trace st @ map CallAdd (take (callsMade answers) newItems)"
    using addItems_trace [of db newItems "[]" st] run ans by simp
  have dt: "data st1 = data st" using addItems_data [of db newItems "[]" st] run by simp
  show "data (handleFileImport db (Items importedData) True st) = data st"
    using run res ne new dt by (simp add: handleFileImport_def Let_def emit_def)
  show "trace (handleFileImport db (Items importedData) True st) =
           trace st @ map CallAdd (take (callsMade answers) newItems) @
             [Alert ''Gagal membaca file atau koneksi error.'']"
    using run res ne new tr by (simp add: handleFileImport_def Let_def emit_def)
qed

lemma handleFileImport_nothing_new:
  assumes "filter (\<lambda>d. noKib d \<notin> set (map noKib (data st))) importedData = []"
  shows "data (handleFileImport db (Items importedData) True st) = data st"
    and "trace (handleFileImport db (Items importedData) True st) =
           trace st @ [OnNotification ''Semua data sudah ada di database.'']"
  using assms by (simp_all add: handleFileImport_def Let_def onNotification_def emit_def)

lemma submitted_append: "submitted (es @ fs) = submitted es @ submitted fs"
  by (induction es rule: submitted.induct) simp_all

lemma length_filter_complement:
  "length (filter (\<lambda>x. \<not> P x) xs) = length xs - length (filter P xs)"
  using sum_length_filter_compl [of P xs] by simp

lemma notifications_CallAdd: "notifications (map CallAdd items) = []"
  by (induction items) simp_all

lemma notifications_append: "notifications (es @ fs) = notifications es @ notifications fs"
  by (induction es rule: notifications.induct) simp_all

text \<open>
  C6, as the code has it. The import drops every imported item whose record number exists
  locally and submits only the remaining items, one at a time in their order, up to and
  including the first create call that is rejected; then it ends with the alert and no
  notification, so that no number is reported. When no call is rejected and an item
  remained, every remaining item is submitted and the one notification reports the number
  of items for which the store returned an identity (a non-empty id). When no item
  remained, nothing is submitted and the one notification says that all data exist
  already. Of three imported items with one duplicate, two remain; both are submitted when
  no call is rejected, and 2 is reported when both return an identity.
\<close>

theorem bulk_import:
  assumes new: "newItems = filter (\<lambda>d. noKib d \<notin> set (map noKib (data st))) importedData"
    and ans: "answers = createAnswers db (remote st) newItems"
    and run: "st' = handleFileImport db (Items importedData) True st"
  shows "submitted (newEvents st st') = take (callsMade answers) newItems
   \<and> (Rejected \<in> set answers \<longrightarrow>
        notifications (newEvents st st') = []
        \<and> last (trace st') = Alert ''Gagal membaca file atau koneksi error.'')
   \<and> (Rejected \<notin> set answers \<and> newItems \<noteq> [] \<longrightarrow>
        submitted (newEvents st st') = newItems
        \<and> notifications (newEvents st st') =
            [''Berhasil mengimpor '' @ showNat (length (filter returnedIdentity answers)) @
             '' data ke database.'']
        \<and> last (trace st') =
            OnNotification (''Berhasil mengimpor '' @
              showNat (length (filter returnedIdentity answers)) @ '' data ke database.''))
   \<and> (newItems = [] \<longrightarrow>
        submitted (newEvents st st') = []
        \<and> notifications (newEvents st st') = [''Semua data sudah ada di database.''])
   \<and> (length importedData = 3
        \<and> length (filter (\<lambda>d. noKib d \<in> set (map noKib (data st))) importedData) = 1 \<longrightarrow>
        length newItems = 2
        \<and> (Rejected \<notin> set answers \<longrightarrow> length (submitted (newEvents st st')) = 2)
        \<and> ((\<forall>a \<in> set answers. returnedIdentity a) \<longrightarrow>
             notifications (newEvents st st') = [''Berhasil mengimpor 2 data ke database.'']))"
proof -
  have len: "length answers = length newItems" by (simp add: ans length_createAnswers)
  have sub_ok: "submitted (newEvents st st') = newItems
      \<and> notifications (newEvents st st') =
            [''Berhasil mengimpor '' @ showNat (length (filter returnedIdentity answers)) @
             '' data ke database.'']
      \<and> last (trace st') =
            OnNotification (''Berhasil mengimpor '' @
              showNat (length (filter returnedIdentity answers)) @ '' data ke database.'')"
    if ok: "Rejected \<notin> set answers" and ne: "newItems \<noteq> []"
    using handleFileImport_completed(2) [OF new ans ok ne]
    by (simp add: run newEvents_def submitted_append submitted_CallAdd notifications_append
        notifications_CallAdd)
  have sub_none: "submitted (newEvents st st') = []
      \<and> notifications (newEvents st st') = [''Semua data sudah ada di database.'']"
    if e: "newItems = []"
  proof -
    have "filter (\<lambda>d. noKib d \<notin> set (map noKib (data st))) importedData = []"
      using e new by simp
    from handleFileImport_nothing_new(2) [OF this, of db]
    show ?thesis by (simp add: run newEvents_def)
  qed
  have sub_bad: "submitted (newEvents st st') = take (callsMade answers) newItems
      \<and> notifications (newEvents st st') = []
      \<and> last (trace st') = Alert ''Gagal membaca file atau koneksi error.''"
    if bad: "Rejected \<in> set answers"
    using handleFileImport_aborted(2) [OF new ans bad]
    by (simp add: run newEvents_def submitted_append submitted_CallAdd notifications_append
        notifications_CallAdd)
  have calls_ok: "callsMade answers = length newItems" if "Rejected \<notin> set answers"
    using that len by (simp add: callsMade_def)
  have first: "submitted (newEvents st st') = take (callsMade answers) newItems"
  proof (cases "Rejected \<in> set answers")
    case True
    then show ?thesis using sub_bad by simp
  next
    case False
    show ?thesis
    proof (cases "newItems = []")
      case True
      then show ?thesis using sub_none by simp
    next
      case ne: False
      then show ?thesis using sub_ok [OF False ne] calls_ok [OF False] by simp
    qed
  qed
  have scen: "length newItems = 2
        \<and> (Rejected \<notin> set answers \<longrightarrow> length (submitted (newEvents st st')) = 2)
        \<and> ((\<forall>a \<in> set answers. returnedIdentity a) \<longrightarrow>
             notifications (newEvents st st') = [''Berhasil mengimpor 2 data ke database.''])"
    if three: "length importedData = 3"
      and one: "length (filter (\<lambda>d. noKib d \<in> set (map noKib (data st))) importedData) = 1"
  proof -
    have two: "length newItems = 2"
      using three one length_filter_complement [of "\<lambda>d. noKib d \<in> set (map noKib (data st))" importedData]
      by (simp add: new)
    then have ne: "newItems \<noteq> []" by auto
    have all: "notifications (newEvents st st') = [''Berhasil mengimpor 2 data ke database.'']"
      if ids: "\<forall>a \<in> set answers. returnedIdentity a"
    proof -
      have ok: "Rejected \<notin> set answers" using ids by (auto simp add: returnedIdentity_def)
      have "filter returnedIdentity answers = answers" using ids by simp
      then have "length (filter returnedIdentity answers) = 2" using len two by simp
      moreover have "showNat 2 = ''2''" by code_simp
      ultimately show ?thesis using sub_ok [OF ok ne] by simp
    qed
    have sub2: "length (submitted (newEvents st st')) = 2" if "Rejected \<notin> set answers"
      using sub_ok [OF that ne] two by simp
    show ?thesis using two sub2 all by simp
  qed
  show ?thesis using first sub_ok sub_none sub_bad scen by blast
qed

theorem bulk_import_witness:
  "filter (\<lambda>d. noKib d \<notin> set (map noKib (data sampleTable))) importFile = [wati, agus]
   \<and> createAnswers acceptingStore (remote sampleTable) [wati, agus] =
       [Resolved ''id7'', Resolved ''id8'']
   \<and> length importFile = 3
   \<and> length (filter (\<lambda>d. noKib d \<in> set (map noKib (data sampleTable))) importFile) = 1
   \<and> submitted (newEvents sampleTable
         (handleFileImport acceptingStore (Items importFile) True sampleTable)) = [wati, agus]
   \<and> notifications (newEvents sampleTable
         (handleFileImport acceptingStore (Items importFile) True sampleTable)) =
       [''Berhasil mengimpor 2 data ke database.'']
   \<and> createAnswers offlineStore (remote sampleTable) [wati, agus] = [Rejected, Rejected]
   \<and> notifications (newEvents sampleTable
         (handleFileImport offlineStore (Items importFile) True sampleTable)) = []"
proof -
  have n: "filter (\<lambda>d. noKib d \<notin> set (map noKib (data sampleTable))) importFile = [wati, agus]"
    by code_simp
  have a: "createAnswers acceptingStore (remote sampleTable) [wati, agus] =
       [Resolved ''id7'', Resolved ''id8'']"
    by code_simp
  have b: "createAnswers offlineStore (remote sampleTable) [wati, agus] = [Rejected, Rejected]"
    by code_simp
  have three: "length importFile = 3" by code_simp
  have one: "length (filter (\<lambda>d. noKib d \<in> set (map noKib (data sampleTable))) importFile) = 1"
    by code_simp
  have ids: "\<forall>a \<in> set [Resolved ''id7'', Resolved ''id8'']. returnedIdentity a"
    "Rejected \<notin> set [Resolved ''id7'', Resolved ''id8'']"
    by (simp_all add: returnedIdentity_def)
  have ne: "[wati, agus] \<noteq> []" by simp
  have rej: "Rejected \<in> set [Rejected, Rejected :: string awaited]" by simp
  note t = bulk_import [OF n [symmetric] a [symmetric] refl]
  note u = bulk_import [OF n [symmetric] b [symmetric] refl]
  have s: "submitted (newEvents sampleTable
         (handleFileImport acceptingStore (Items importFile) True sampleTable)) = [wati, agus]"
    using t ids ne by blast
  have l: "notifications (newEvents sampleTable
         (handleFileImport acceptingStore (Items importFile) True sampleTable)) =
       [''Berhasil mengimpor 2 data ke database.'']"
    using t three one ids by blast
  have r: "notifications (newEvents sampleTable
         (handleFileImport offlineStore (Items importFile) True sampleTable)) = []"
    using u rej by blast
  show ?thesis using n a b three one s l r by simp
qed

text \<open>
  C6 as stated fails in two cases. When the store rejects a create call, of the three
  imported items with one duplicate only the first remaining item is submitted, not two,
  and the import ends with the alert. When every imported item is a duplicate, nothing is
  submitted and the notification reports no number.
\<close>

theorem bulk_import_counterexample:
  "length importFile = 3
   \<and> length (filter (\<lambda>d. noKib d \<in> set (map noKib (data sampleTable))) importFile) = 1
   \<and> submitted (newEvents sampleTable
         (handleFileImport offlineStore (Items importFile) True sampleTable)) = [wati]
   \<and> length (submitted (newEvents sampleTable
         (handleFileImport offlineStore (Items importFile) True sampleTable))) \<noteq> 2
   \<and> newEvents sampleTable (handleFileImport offlineStore (Items importFile) True sampleTable) =
       [CallAdd wati, Alert ''Gagal membaca file atau koneksi error.'']
   \<and> newEvents sampleTable (handleFileImport acceptingStore (Items [budiAgain]) True sampleTable) =
       [OnNotification ''Semua data sudah ada di database.'']"
  by code_simp

section \<open>Properties of the percentage\<close>

lemma floor_half: "\<lfloor>1 / 2 :: rat\<rfloor> = 0"
  by (rule floor_unique) simp_all

lemma rawatInap_le_total: "rawatInap ps \<le> totalPatients ps"
  by (simp add: rawatInap_def totalPatients_def)

lemma Math_round_nearest: "\<bar>of_int \<lfloor>x + 1 / 2\<rfloor> - x\<bar> \<le> (1 / 2 :: rat)"
proof -
  define n where "n = \<lfloor>x + 1 / 2\<rfloor>"
  have lo: "of_int n \<le> x + 1 / 2" unfolding n_def by (rule of_int_floor_le)
  have hi: "x + 1 / 2 < of_int n + 1" unfolding n_def by linarith
  have "\<bar>of_int n - x\<bar> \<le> 1 / 2" using lo hi by linarith
  then show ?thesis by (simp only: n_def)
qed

text \<open>
  The product that is rounded, in a case the exact quotient would round the other way:
  23 inpatients of 40 patients are 57.5 percent, the doubles give 57.49999999999999 and
  the card shows 57.
\<close>

lemma percent_23_of_40:
  "jsTimes (jsDivide 23 40) 100 = Finite (8092405580431359 / 140737488355328)
   \<and> Math_round (orZeroNum (jsTimes (jsDivide 23 40) 100)) = Finite 57"
  by code_simp

text \<open>
  C9. With no patients the quotient is \<open>NaN\<close>, \<^verbatim>\<open>|| 0\<close> turns it into 0 and the card
  shows 0. With patients the quotient and the product are finite, \<^verbatim>\<open>|| 0\<close> changes
  nothing, and the card shows \<^verbatim>\<open>Math.round\<close> of the product
  \<^verbatim>\<open>(rawatInap / totalPatients) * 100\<close> of the host arithmetic: an integer at distance at
  most one half from that product.
\<close>

theorem inpatient_percentage:
  "(totalPatients ps = 0 \<longrightarrow> inpatientPercent ps = Finite 0)
   \<and> (0 < totalPatients ps \<longrightarrow>
        inpatientPercent ps =
          Math_round (jsTimes (jsDivide (rawatInap ps) (totalPatients ps)) 100)
        \<and> (\<exists>x n. jsTimes (jsDivide (rawatInap ps) (totalPatients ps)) 100 = Finite x
                 \<and> inpatientPercent ps = Finite (of_int n)
                 \<and> n = \<lfloor>x + 1 / 2\<rfloor> \<and> \<bar>of_int n - x\<bar> \<le> 1 / 2))"
proof (intro conjI impI)
  assume zero: "totalPatients ps = 0"
  then have "rawatInap ps = 0" using rawatInap_le_total [of ps] by simp
  then show "inpatientPercent ps = Finite 0"
    using zero by (simp add: inpatientPercent_def jsDivide_def floor_half)
next
  assume pos: "0 < totalPatients ps"
  define x where
    "x = fl (fl (of_nat (rawatInap ps) / of_nat (totalPatients ps)) * of_nat (100::nat))"
  have prod: "jsTimes (jsDivide (rawatInap ps) (totalPatients ps)) 100 = Finite x"
    using pos by (simp add: jsDivide_def x_def)
  have same: "orZeroNum (Finite x) = Finite x" by simp
  show "inpatientPercent ps =
          Math_round (jsTimes (jsDivide (rawatInap ps) (totalPatients ps)) 100)"
    unfolding inpatientPercent_def prod same ..
  have "inpatientPercent ps = Finite (of_int \<lfloor>x + 1 / 2\<rfloor>)"
    unfolding inpatientPercent_def prod same by simp
  then show "\<exists>x n. jsTimes (jsDivide (rawatInap ps) (totalPatients ps)) 100 = Finite x
                 \<and> inpatientPercent ps = Finite (of_int n)
                 \<and> n = \<lfloor>x + 1 / 2\<rfloor> \<and> \<bar>of_int n - x\<bar> \<le> 1 / 2"
    using prod Math_round_nearest [of x] by blast
qed

theorem inpatient_percentage_witness:
  "totalPatients [] = 0 \<and> inpatientPercent [] = Finite 0
   \<and> 0 < totalPatients [budi, siti, siti]
   \<and> inpatientPercent [budi, siti, siti] = Finite 33
   \<and> Math_round (jsTimes (jsDivide (rawatInap [budi, siti, siti]) (totalPatients [budi, siti, siti])) 100)
       = Finite 33"
proof -
  have z: "totalPatients [] = 0" and p: "0 < totalPatients [budi, siti, siti]"
    by (simp_all add: totalPatients_def)
  have e: "inpatientPercent [] = Finite 0"
    using inpatient_percentage [of "[]"] z by blast
  have r: "Math_round (jsTimes (jsDivide (rawatInap [budi, siti, siti]) (totalPatients [budi, siti, siti])) 100)
       = Finite 33"
    by code_simp
  have "inpatientPercent [budi, siti, siti] =
        Math_round (jsTimes (jsDivide (rawatInap [budi, siti, siti]) (totalPatients [budi, siti, siti])) 100)"
    using inpatient_percentage [of "[budi, siti, siti]"] p by blast
  then show ?thesis using z p e r by simp
qed

section \<open>Properties of the rounding to a double\<close>

lemma bitlen_pos: "0 < n \<Longrightarrow> bitlen n = Suc (bitlen (n div 2))"
  by (subst bitlen.simps) simp

lemma bitlen_nonpos: "n \<le> 0 \<Longrightarrow> bitlen n = 0"
  by (subst bitlen.simps) simp

lemma bitlen_bounds: "0 < n \<Longrightarrow> 2 ^ (bitlen n - 1) \<le> n \<and> n < 2 ^ bitlen n"
proof (induction n rule: bitlen.induct)
  case (1 n)
  show ?case
  proof (cases "n div 2 = 0")
    case True
    then have "n = 1" using "1.prems" by presburger
    then show ?thesis by (simp add: bitlen_pos bitlen_nonpos)
  next
    case False
    then have h: "0 < n div 2" using "1.prems" by presburger
    have ih: "2 ^ (bitlen (n div 2) - 1) \<le> n div 2 \<and> n div 2 < 2 ^ bitlen (n div 2)"
      using "1.IH" "1.prems" h by simp
    have bl: "bitlen n = Suc (bitlen (n div 2))" using "1.prems" by (rule bitlen_pos)
    obtain b where b: "bitlen (n div 2) = Suc b" using h by (auto simp add: bitlen_pos)
    have lo: "2 * (n div 2) \<le> n" and hi: "n \<le> 2 * (n div 2) + 1" by presburger+
    show ?thesis using ih lo hi by (simp add: bl b)
  qed
qed

lemma pow2_powi: "pow2 k = 2 powi k"
  by (simp add: pow2_def power_int_def power_inverse inverse_eq_divide power_one_over)

lemma pow2_pos: "0 < pow2 k"
  by (simp add: pow2_powi)

lemma pow2_add: "pow2 (j + k) = pow2 j * pow2 k"
  by (simp add: pow2_powi power_int_add)

lemma pow2_nat: "pow2 (int n) = 2 ^ n"
  by (simp add: pow2_def)

lemma pow2_neg_nat: "pow2 (- int n) = 1 / 2 ^ n"
  by (simp add: pow2_def)

lemma pow2_52: "pow2 52 = 2 ^ 52" and pow2_53: "pow2 53 = 2 ^ 53"
  using pow2_nat [of 52] pow2_nat [of 53] by simp_all

lemma pow2_mono: "j \<le> k \<Longrightarrow> pow2 j \<le> pow2 k"
  by (simp add: pow2_powi power_int_increasing)

lemma binade_bounds:
  assumes "0 < x"
  shows "pow2 (binade x) \<le> x \<and> x < pow2 (binade x + 1)"
proof -
  obtain p q where pq: "quotient_of x = (p, q)" by (cases "quotient_of x")
  have q: "0 < q" using pq by (rule quotient_of_denom_pos)
  have x: "x = of_int p / of_int q" using pq by (rule quotient_of_div)
  have p: "0 < p" using assms q x by (simp add: zero_less_divide_iff)
  define k where "k = int (bitlen p) - int (bitlen q)"
  obtain a where a: "bitlen p = Suc a" using p by (auto simp add: bitlen_pos)
  obtain b where b: "bitlen q = Suc b" using q by (auto simp add: bitlen_pos)
  have pb: "2 ^ a \<le> p" "p < 2 ^ Suc a" using bitlen_bounds [OF p] by (simp_all add: a)
  have qb: "2 ^ b \<le> q" "q < 2 ^ Suc b" using bitlen_bounds [OF q] by (simp_all add: b)
  have k: "k = int a - int b" by (simp add: k_def a b)
  have pr: "(2::rat) ^ a \<le> of_int p" "of_int p < (2::rat) ^ Suc a"
    using pb by (metis of_int_le_iff of_int_numeral of_int_power, metis of_int_less_iff of_int_numeral of_int_power)
  have qr: "(2::rat) ^ b \<le> of_int q" "of_int q < (2::rat) ^ Suc b"
    using qb by (metis of_int_le_iff of_int_numeral of_int_power, metis of_int_less_iff of_int_numeral of_int_power)
  have qpos: "(0::rat) < of_int q" using q by simp
  have up: "x < pow2 (k + 1)"
  proof -
    have "of_int p * 2 ^ b < (2::rat) ^ Suc a * of_int q"
    proof -
      have "of_int p * (2::rat) ^ b < 2 ^ Suc a * 2 ^ b" using pr(2) by simp
      also have "\<dots> \<le> 2 ^ Suc a * of_int q" using qr(1) by simp
      finally show ?thesis .
    qed
    then have "x < 2 ^ Suc a / 2 ^ b"
      using qpos by (simp add: x divide_simps mult.commute)
    also have "\<dots> = pow2 (int (Suc a)) * pow2 (- int b)"
      by (simp only: pow2_nat pow2_neg_nat times_divide_eq_right mult_1_right)
    also have "\<dots> = pow2 (int (Suc a) + - int b)" by (simp only: pow2_add)
    also have "int (Suc a) + - int b = k + 1" by (simp add: k)
    finally show ?thesis .
  qed
  have lo: "pow2 (k - 1) \<le> x"
  proof -
    have "(2::rat) ^ a * of_int q \<le> of_int p * 2 ^ Suc b"
    proof -
      have "(2::rat) ^ a * of_int q \<le> 2 ^ a * 2 ^ Suc b" using qr(2) by simp
      also have "\<dots> \<le> of_int p * 2 ^ Suc b" using pr(1) by simp
      finally show ?thesis .
    qed
    then have le: "2 ^ a / 2 ^ Suc b \<le> x"
      using qpos by (simp add: x divide_simps mult.commute)
    have i: "int a + - int (Suc b) = k - 1" by (simp add: k)
    have "pow2 (k - 1) = pow2 (int a + - int (Suc b))" by (simp only: i)
    also have "\<dots> = pow2 (int a) * pow2 (- int (Suc b))" by (simp only: pow2_add)
    also have "\<dots> = 2 ^ a / 2 ^ Suc b"
      by (simp only: pow2_nat pow2_neg_nat times_divide_eq_right mult_1_right)
    finally show ?thesis using le by simp
  qed
  show ?thesis
  proof (cases "pow2 k \<le> x")
    case True
    then have "binade x = k" by (simp add: binade_def pq k_def)
    then show ?thesis using True up by simp
  next
    case False
    then have "binade x = k - 1" by (simp add: binade_def pq k_def)
    then show ?thesis using False lo by simp
  qed
qed

lemma roundHalfEven_near: "\<bar>of_int (roundHalfEven x) - x\<bar> \<le> 1 / 2"
proof -
  define f where "f = \<lfloor>x\<rfloor>"
  have "of_int f \<le> x" "x < of_int f + 1" unfolding f_def by linarith+
  then show ?thesis
    unfolding roundHalfEven_def Let_def f_def [symmetric]
    by (auto simp add: abs_le_iff)
qed

lemma roundHalfEven_mono_int: "x \<le> of_int n \<Longrightarrow> roundHalfEven x \<le> n"
proof -
  assume a: "x \<le> of_int n"
  have "\<lfloor>x\<rfloor> \<le> n" using a by (simp add: floor_le_iff) 
  moreover have "\<lfloor>x\<rfloor> < n" if "1 / 2 \<le> x - of_int \<lfloor>x\<rfloor>"
  proof -
    have "of_int \<lfloor>x\<rfloor> < x" using that by linarith
    then have "of_int \<lfloor>x\<rfloor> < (of_int n :: rat)" using a by linarith
    then show ?thesis by simp
  qed
  ultimately show ?thesis
    unfolding roundHalfEven_def Let_def by auto
qed

lemma roundHalfEven_ge_int: "of_int n \<le> x \<Longrightarrow> n \<le> roundHalfEven x"
proof -
  assume "of_int n \<le> x"
  then have "n \<le> \<lfloor>x\<rfloor>" by (simp add: le_floor_iff)
  then show ?thesis unfolding roundHalfEven_def Let_def by auto
qed

text \<open>
  \<open>fl\<close> of a positive rational is a double: an integer significand between \<open>2^52\<close> and
  \<open>2^53\<close> times a power of two, at most half a unit in the last place away.
\<close>

lemma fl_is_double:
  assumes "0 < x"
  shows "\<exists>m. fl x = of_int m * pow2 (binade x - 52) \<and> 2 ^ 52 \<le> m \<and> m \<le> 2 ^ 53
             \<and> \<bar>fl x - x\<bar> \<le> pow2 (binade x - 52) / 2"
proof -
  define ulp where "ulp = pow2 (binade x - 52)"
  define m where "m = roundHalfEven (x / ulp)"
  have u: "0 < ulp" by (simp add: ulp_def pow2_pos)
  have f: "fl x = of_int m * ulp" using assms by (simp add: fl_def m_def ulp_def Let_def)
  have b: "pow2 (binade x) \<le> x" "x < pow2 (binade x + 1)" using binade_bounds [OF assms] by simp_all
  have e1: "pow2 (binade x) = 2 ^ 52 * ulp"
  proof -
    have "pow2 (binade x) = pow2 (52 + (binade x - 52))" by (rule arg_cong [of _ _ pow2]) simp
    then show ?thesis by (simp only: pow2_add pow2_52 ulp_def)
  qed
  have e2: "pow2 (binade x + 1) = 2 ^ 53 * ulp"
  proof -
    have "pow2 (binade x + 1) = pow2 (53 + (binade x - 52))" by (rule arg_cong [of _ _ pow2]) simp
    then show ?thesis by (simp only: pow2_add pow2_53 ulp_def)
  qed
  have lo: "of_int (2 ^ 52) \<le> x / ulp" using b(1) u by (simp add: e1 pos_le_divide_eq)
  have hi: "x / ulp \<le> of_int (2 ^ 53)" using b(2) u by (simp add: e2 pos_divide_le_eq)
  have m1: "2 ^ 52 \<le> m" unfolding m_def using lo by (rule roundHalfEven_ge_int)
  have m2: "m \<le> 2 ^ 53" unfolding m_def using hi by (rule roundHalfEven_mono_int)
  have "\<bar>of_int m - x / ulp\<bar> \<le> 1 / 2" unfolding m_def by (rule roundHalfEven_near)
  then have "\<bar>of_int m - x / ulp\<bar> * ulp \<le> 1 / 2 * ulp" using u by (simp only: mult_le_cancel_right_pos)
  moreover have "\<bar>of_int m - x / ulp\<bar> * ulp = \<bar>of_int m * ulp - x\<bar>"
    using u by (simp add: abs_mult_pos' [symmetric] left_diff_distrib abs_mult_pos)
  ultimately have near: "\<bar>fl x - x\<bar> \<le> ulp / 2" by (simp add: f)
  show ?thesis using f m1 m2 near unfolding ulp_def by blast
qed

lemma binade_less: "0 < x \<Longrightarrow> x < pow2 k \<Longrightarrow> binade x < k"
proof (rule ccontr)
  assume x: "0 < x" "x < pow2 k" and "\<not> binade x < k"
  then have "pow2 k \<le> pow2 (binade x)" by (simp add: pow2_mono)
  also have "\<dots> \<le> x" using binade_bounds [OF x(1)] by simp
  finally show False using x(2) by simp
qed

lemma fl_pos: "0 < x \<Longrightarrow> 0 < fl x"
proof -
  assume "0 < x"
  from fl_is_double [OF this] obtain m where
    m: "fl x = of_int m * pow2 (binade x - 52)" "2 ^ 52 \<le> m" by blast
  have "(0::rat) < of_int m" using m(2) by simp
  then show ?thesis using m(1) pow2_pos [of "binade x - 52"] by simp
qed

lemma fl_le_multiple:
  assumes x: "0 < x" and le: "x \<le> of_int c * pow2 j" and j: "binade x - 52 \<le> j"
  shows "fl x \<le> of_int c * pow2 j"
proof -
  define ulp where "ulp = pow2 (binade x - 52)"
  have u: "0 < ulp" by (simp add: ulp_def pow2_pos)
  define d where "d = nat (j - (binade x - 52))"
  have "pow2 j = pow2 (int d + (binade x - 52))"
    by (rule arg_cong [of _ _ pow2]) (use j in \<open>simp add: d_def\<close>)
  then have pj: "pow2 j = 2 ^ d * ulp" by (simp only: pow2_add pow2_nat ulp_def)
  have r: "of_int c * pow2 j = of_int (c * 2 ^ d) * ulp" by (simp add: pj)
  have "x / ulp \<le> of_int (c * 2 ^ d)" using le u by (simp only: r pos_divide_le_eq)
  then have "roundHalfEven (x / ulp) \<le> c * 2 ^ d" by (rule roundHalfEven_mono_int)
  then have "(of_int (roundHalfEven (x / ulp)) :: rat) \<le> of_int (c * 2 ^ d)" by (simp only: of_int_le_iff)
  then have "of_int (roundHalfEven (x / ulp)) * ulp \<le> of_int (c * 2 ^ d) * ulp"
    using u by (simp only: mult_le_cancel_right_pos)
  then show ?thesis using x by (simp add: fl_def Let_def ulp_def [symmetric] r)
qed

text \<open>
  The percentage of a part of a whole is between 0 and 100 in the host arithmetic too.
\<close>

lemma percent_range:
  assumes "a \<le> b" "0 < b"
  shows "\<exists>n. Math_round (orZeroNum (jsTimes (jsDivide a b) 100)) = Finite (of_int n)
             \<and> 0 \<le> n \<and> n \<le> 100"
proof (cases "a = 0")
  case True
  have "fl 0 = 0" by (simp add: fl_def)
  then have "Math_round (orZeroNum (jsTimes (jsDivide a b) 100)) = Finite (of_int 0)"
    using True assms by (simp add: jsDivide_def floor_half)
  then show ?thesis by (intro exI [of _ 0]) simp
next
  case False
  define q where "q = (of_nat a / of_nat b :: rat)"
  have q: "0 < q" "q \<le> 1" using False assms by (simp_all add: q_def)
  define y where "y = fl q"
  have y0: "0 < y" unfolding y_def using q(1) by (rule fl_pos)
  have "q < pow2 1" using q(2) by (simp add: pow2_def)
  then have "binade q < 1" using q(1) by (intro binade_less)
  then have "fl q \<le> of_int 1 * pow2 0"
    using q by (intro fl_le_multiple) (simp_all add: pow2_def)
  then have y1: "y \<le> 1" by (simp add: y_def pow2_def)
  define z where "z = y * of_nat (100::nat)"
  have z: "0 < z" "z \<le> 100" using y0 y1 by (simp_all add: z_def)
  define x where "x = fl z"
  have x0: "0 < x" unfolding x_def using z(1) by (rule fl_pos)
  have "z < pow2 7" using z(2) by (simp add: pow2_def)
  then have "binade z < 7" using z(1) by (intro binade_less)
  then have "fl z \<le> of_int 100 * pow2 0"
    using z by (intro fl_le_multiple) (simp_all add: pow2_def)
  then have x1: "x \<le> 100" by (simp add: x_def pow2_def)
  have prod: "jsTimes (jsDivide a b) 100 = Finite x"
    using assms by (simp add: jsDivide_def x_def z_def y_def q_def)
  have "Math_round (orZeroNum (jsTimes (jsDivide a b) 100)) = Finite (of_int \<lfloor>x + 1 / 2\<rfloor>)"
    using x0 by (simp add: prod)
  moreover have "0 \<le> \<lfloor>x + 1 / 2\<rfloor>" using x0 by simp
  moreover have "\<lfloor>x + 1 / 2\<rfloor> \<le> 100"
  proof -
    have "x + 1 / 2 < of_int 101" using x1 by simp
    then have "\<lfloor>x + 1 / 2\<rfloor> < 101" by (simp only: floor_less_iff)
    then show ?thesis by simp
  qed
  ultimately show ?thesis by blast
qed

lemma inpatientPercent_range:
  "ps \<noteq> [] \<Longrightarrow> \<exists>n. inpatientPercent ps = Finite (of_int n) \<and> 0 \<le> n \<and> n \<le> 100"
  unfolding inpatientPercent_def
  by (rule percent_range) (simp_all add: rawatInap_def totalPatients_def)

end
